theory Spec2Isabelle
  imports Main
begin

section \<open>Headcount tracker: the authenticated attendance ledger of app.js\<close>

text \<open>
  The development embeds the storage layer, the designation index, the login and
  session state machine, the audit trail and the attendance ledger of \<^verbatim>\<open>src/app.js\<close>.
  Every operation of the source reads and writes whole JSON documents in
  \<^verbatim>\<open>localStorage\<close>; here the documents are the fields of one record \<open>store\<close>, and an
  operation takes the store and returns the store it leaves behind. Timestamps are the
  milliseconds of \<^verbatim>\<open>Date.now()\<close>, a natural number handed to each operation; an
  operation reads the clock at one instant. A \<^verbatim>\<open>TypeError\<close> that the code throws is a
  result of the operation, together with the store as it is at the throw.
\<close>

subsection \<open>CONFIG\<close>

definition SESSION_DURATION :: nat where
  "SESSION_DURATION = 8 * 60 * 60 * 1000"

definition LOCKOUT_DURATION :: nat where
  "LOCKOUT_DURATION = 5 * 60 * 1000"

definition MAX_LOGIN_ATTEMPTS :: nat where
  "MAX_LOGIN_ATTEMPTS = 5"

definition MAX_AUDIT_ENTRIES :: nat where
  "MAX_AUDIT_ENTRIES = 10"

definition MAX_GLOBAL_DESIGNATION_HISTORY :: nat where
  "MAX_GLOBAL_DESIGNATION_HISTORY = 100"

definition MAX_AREA_DESIGNATION_HISTORY :: nat where
  "MAX_AREA_DESIGNATION_HISTORY = 50"

subsection \<open>JavaScript text, numbers and objects\<close>

text \<open>
  A designation label is JavaScript text: a list of UTF-16 code units, each a natural
  number (below 65536 in the program). \<open>u16\<close> writes a label from Latin-1 characters. Names
  that the code only compares for equality (user names, area names, date keys) stay
  \<^typ>\<open>string\<close>.
\<close>

type_synonym ustring = "nat list"

definition u16 :: "string \<Rightarrow> ustring" where
  "u16 s = map of_char s"

text \<open>
  Numbers are IEEE doubles. The counts of the ledger are whole numbers, so a finite
  number is kept as the integer it is; a sum is rounded to the nearest double, ties to
  the even significand of 53 bits, and overflows to an infinity from \<open>2 ^ 1024\<close> on.
\<close>

datatype jsnum = Fin int | PosInf | NegInf | NaN

function bit_length :: "nat \<Rightarrow> nat" where
  "bit_length n = (if n = 0 then 0 else Suc (bit_length (n div 2)))"
  by pat_completeness auto
termination
  by (relation "measure id") auto

declare bit_length.simps [simp del]

definition round_to_double :: "int \<Rightarrow> int" where
  "round_to_double x =
     (let m = nat \<bar>x\<bar>; n = bit_length m in
      if n \<le> 53 then x
      else
        (let k = n - 53; q = m div 2 ^ k; r = m mod 2 ^ k; h = 2 ^ (k - 1);
             q' = (if h < r \<or> (r = h \<and> odd q) then q + 1 else q)
         in sgn x * int (q' * 2 ^ k)))"

definition to_double :: "int \<Rightarrow> jsnum" where
  "to_double x =
     (let r = round_to_double x in
      if 2 ^ 1024 \<le> r then PosInf else if r \<le> - (2 ^ 1024) then NegInf else Fin r)"

fun js_plus :: "jsnum \<Rightarrow> jsnum \<Rightarrow> jsnum" where
  "js_plus (Fin a) (Fin b) = to_double (a + b)"
| "js_plus NaN _ = NaN"
| "js_plus _ NaN = NaN"
| "js_plus PosInf NegInf = NaN"
| "js_plus NegInf PosInf = NaN"
| "js_plus PosInf _ = PosInf"
| "js_plus _ PosInf = PosInf"
| "js_plus NegInf _ = NegInf"
| "js_plus _ NegInf = NegInf"

text \<open>
  A value of a row's \<^verbatim>\<open>present\<close> field, and of the \<^verbatim>\<open>from\<close> and \<^verbatim>\<open>to\<close> fields of an audit
  entry: \<^verbatim>\<open>null\<close>, a finite number (the entry screen passes \<^verbatim>\<open>parseInt\<close> of the input, and
  JSON holds no infinity), a boolean or text.
\<close>

datatype jsval = JNull | JNum int | JBool bool | JStr ustring

text \<open>
  The documents are plain objects. \<^verbatim>\<open>obj[key]\<close> finds an own property, or else a
  property that every object inherits from \<^verbatim>\<open>Object.prototype\<close> (a function, or the
  prototype itself for \<^verbatim>\<open>__proto__\<close>: truthy, and without any of the fields of a
  document), or else \<^verbatim>\<open>undefined\<close>. \<^verbatim>\<open>obj[key] = v\<close> makes or changes an own property,
  except that with the key \<^verbatim>\<open>__proto__\<close>, when it is not an own property, it sets the
  prototype, which \<^verbatim>\<open>JSON.stringify\<close> does not write.
\<close>

definition proto_names :: "string list" where
  "proto_names =
     [''constructor'', ''__defineGetter__'', ''__defineSetter__'', ''hasOwnProperty'',
      ''__lookupGetter__'', ''__lookupSetter__'', ''isPrototypeOf'',
      ''propertyIsEnumerable'', ''toString'', ''valueOf'', ''__proto__'',
      ''toLocaleString'']"

datatype 'a property = Own 'a | Inherited | Absent

definition js_get :: "(string \<rightharpoonup> 'a) \<Rightarrow> string \<Rightarrow> 'a property" where
  "js_get obj key =
     (case obj key of
        Some v \<Rightarrow> Own v
      | None \<Rightarrow> if key \<in> set proto_names then Inherited else Absent)"

definition js_set :: "(string \<rightharpoonup> 'a) \<Rightarrow> string \<Rightarrow> 'a \<Rightarrow> (string \<rightharpoonup> 'a)" where
  "js_set obj key v =
     (if key = ''__proto__'' \<and> obj key = None then obj else obj(key \<mapsto> v))"

datatype js_exn = TypeError

subsection \<open>The persisted documents\<close>

record failed_login =
  count :: nat
  cooldownUntil :: "nat option"

record session =
  currentUser :: "string option"
  expiresAt :: "nat option"
  failedLogin :: failed_login

record user =
  username :: string
  role :: string
  salt :: string
  passwordHash :: string
  assignedAreas :: "string list"
  createdAt :: nat
  disabled :: bool

record row =
  designationKey :: ustring
  designationLabel :: ustring
  present :: jsval
  confirmed :: bool
  updatedAt :: "nat option"
  updatedBy :: "string option"

record audit_entry =
  e_ts :: nat
  e_user :: string
  e_area :: string
  e_designationKey :: ustring
  e_field :: string
  e_from :: jsval
  e_to :: jsval

record area_data =
  rows :: "row list"

record date_attendance =
  areas :: "string \<rightharpoonup> area_data"
  audit :: "audit_entry list"
  d_updatedAt :: "nat option"
  d_updatedBy :: "string option"

record designation_history =
  h_global :: "ustring list"
  h_byArea :: "string \<rightharpoonup> ustring list"

text \<open>
  The store: one field for each \<^verbatim>\<open>STORAGE_KEYS\<close> document that the ledger uses. A key
  that was never written reads as the default of its \<^verbatim>\<open>Storage.get...\<close> function, which
  is the value the field has in \<open>empty_store\<close>.
\<close>

record store =
  hc_users :: "user list"
  hc_session :: session
  hc_attendance :: "string \<rightharpoonup> date_attendance"
  hc_designation_history :: designation_history

definition default_session :: session where
  "default_session =
     \<lparr>currentUser = None, expiresAt = None,
      failedLogin = \<lparr>count = 0, cooldownUntil = None\<rparr>\<rparr>"

definition empty_store :: store where
  "empty_store =
     \<lparr>hc_users = [], hc_session = default_session, hc_attendance = Map.empty,
      hc_designation_history = \<lparr>h_global = [], h_byArea = Map.empty\<rparr>\<rparr>"

subsection \<open>Utils.normalizeDesignation\<close>

text \<open>
  The white space of \<^verbatim>\<open>trim\<close> and of the pattern \<^verbatim>\<open>\s\<close> is ECMAScript's WhiteSpace and
  LineTerminator: tab, line feed, vertical tab, form feed, carriage return, space,
  no-break space, U+1680, U+2000 to U+200A, U+2028, U+2029, U+202F, U+205F, U+3000 and
  U+FEFF.
\<close>

definition is_ws :: "nat \<Rightarrow> bool" where
  "is_ws c =
     (c \<in> set [0x09, 0x0A, 0x0B, 0x0C, 0x0D, 0x20, 0xA0, 0x1680,
               0x2000, 0x2001, 0x2002, 0x2003, 0x2004, 0x2005, 0x2006, 0x2007, 0x2008,
               0x2009, 0x200A, 0x2028, 0x2029, 0x202F, 0x205F, 0x3000, 0xFEFF])"

text \<open>
  \<^verbatim>\<open>toLowerCase\<close>. On text whose code units are all Latin-1 (below 256) or the Kelvin
  sign U+212A the conversion works unit by unit: the letters A to Z and the accented
  capitals 192 to 222, the multiplication sign 215 apart, move up by 32, the Kelvin
  sign becomes k, and every other unit stays. The conversion of any other text
  (the rest of Unicode, with its context rules and results of several units) is that
  of the JavaScript runtime: the parameter \<open>L\<close>.
\<close>

definition lower_unit :: "nat \<Rightarrow> nat" where
  "lower_unit c =
     (if (65 \<le> c \<and> c \<le> 90) \<or> (192 \<le> c \<and> c \<le> 222 \<and> c \<noteq> 215) then c + 32
      else if c = 0x212A then 0x6B
      else c)"

definition in_table :: "nat \<Rightarrow> bool" where
  "in_table c = (c < 256 \<or> c = 0x212A)"

definition toLowerCase :: "(ustring \<Rightarrow> ustring) \<Rightarrow> ustring \<Rightarrow> ustring" where
  "toLowerCase L s = (if list_all in_table s then map lower_unit s else L s)"

text \<open>\<^verbatim>\<open>trim\<close> strips the white space at both ends.\<close>

definition trimStart :: "ustring \<Rightarrow> ustring" where
  "trimStart s = dropWhile is_ws s"

definition trimEnd :: "ustring \<Rightarrow> ustring" where
  "trimEnd s = rev (dropWhile is_ws (rev s))"

definition trim :: "ustring \<Rightarrow> ustring" where
  "trim s = trimEnd (trimStart s)"

text \<open>\<^verbatim>\<open>replace(/\s+/g, ' ')\<close>: every maximal run of white space becomes one space.\<close>

function collapse_ws :: "ustring \<Rightarrow> ustring" where
  "collapse_ws [] = []"
| "collapse_ws (c # cs) =
     (if is_ws c then 0x20 # collapse_ws (dropWhile is_ws cs)
      else c # collapse_ws cs)"
  by pat_completeness auto
termination
  by (relation "measure length") (auto simp: length_dropWhile_le le_imp_less_Suc)

definition normalizeDesignation :: "(ustring \<Rightarrow> ustring) \<Rightarrow> ustring \<Rightarrow> ustring" where
  "normalizeDesignation L text = toLowerCase L (collapse_ws (trim text))"

text \<open>
  The reading of "differ only in letter case or in the length or position of white-space
  runs", written from the words of the specification and not from the code. White
  space is given by its ranges of code points. The words of a label are its maximal
  runs of code units that are not white space. A capital and its small letter form a
  case pair; two code units are the same letter when they are equal or form a case
  pair; two labels are the same up to case and spacing when they have the same number
  of words and corresponding words have the same length and the same letters.
\<close>

definition white_space :: "nat \<Rightarrow> bool" where
  "white_space c =
     ((9 \<le> c \<and> c \<le> 13) \<or> c = 32 \<or> c = 160 \<or> c = 5760 \<or> (8192 \<le> c \<and> c \<le> 8202)
      \<or> c = 8232 \<or> c = 8233 \<or> c = 8239 \<or> c = 8287 \<or> c = 12288 \<or> c = 65279)"

function words_of :: "ustring \<Rightarrow> ustring list" where
  "words_of [] = []"
| "words_of (c # cs) =
     (if white_space c then words_of cs
      else (c # takeWhile (\<lambda>x. \<not> white_space x) cs)
           # words_of (dropWhile (\<lambda>x. \<not> white_space x) cs))"
  by pat_completeness auto
termination
  by (relation "measure length") (auto simp: length_dropWhile_le le_imp_less_Suc)

definition case_pair :: "nat \<Rightarrow> nat \<Rightarrow> bool" where
  "case_pair u l =
     ((0x41 \<le> u \<and> u \<le> 0x5A \<and> l = u + 0x20)
      \<or> (0xC0 \<le> u \<and> u \<le> 0xDE \<and> u \<noteq> 0xD7 \<and> l = u + 0x20)
      \<or> (u = 0x212A \<and> l = 0x6B))"

definition same_letter :: "nat \<Rightarrow> nat \<Rightarrow> bool" where
  "same_letter c d = (c = d \<or> case_pair c d \<or> case_pair d c)"

definition same_up_to_case_and_spacing :: "ustring \<Rightarrow> ustring \<Rightarrow> bool" where
  "same_up_to_case_and_spacing a b =
     list_all2 (list_all2 same_letter) (words_of a) (words_of b)"

definition latin1_label :: "ustring \<Rightarrow> bool" where
  "latin1_label a = list_all (\<lambda>c. c < 256 \<or> white_space c) a"

text \<open>The words of a label put together again with one space between them.\<close>

fun join_words :: "ustring list \<Rightarrow> ustring" where
  "join_words [] = []"
| "join_words [w] = w"
| "join_words (w # v # ws) = w @ 0x20 # join_words (v # ws)"

subsection \<open>Storage\<close>

definition getUsers :: "store \<Rightarrow> user list" where
  "getUsers s = hc_users s"

definition getSession :: "store \<Rightarrow> session" where
  "getSession s = hc_session s"

definition saveSession :: "store \<Rightarrow> session \<Rightarrow> store" where
  "saveSession s sess = s\<lparr>hc_session := sess\<rparr>"

definition getAttendance :: "store \<Rightarrow> (string \<rightharpoonup> date_attendance)" where
  "getAttendance s = hc_attendance s"

definition saveAttendance :: "store \<Rightarrow> (string \<rightharpoonup> date_attendance) \<Rightarrow> store" where
  "saveAttendance s a = s\<lparr>hc_attendance := a\<rparr>"

definition empty_date :: date_attendance where
  "empty_date = \<lparr>areas = Map.empty, audit = [], d_updatedAt = None, d_updatedBy = None\<rparr>"

text \<open>
  \<^verbatim>\<open>getAttendanceForDate\<close> parses the attendance document into a fresh object \<open>all\<close>,
  puts an empty date document into that copy when \<^verbatim>\<open>all[dateStr]\<close> is falsy, and returns
  \<^verbatim>\<open>all[dateStr]\<close>: a date document (\<open>Own\<close>), or what the date key inherits
  (\<open>Inherited\<close>). The copy is dropped; nothing is written.
\<close>

definition getAttendanceForDate :: "store \<Rightarrow> string \<Rightarrow> date_attendance property" where
  "getAttendanceForDate s dateStr =
     (let all = getAttendance s in
      case js_get all dateStr of
        Absent \<Rightarrow> js_get (js_set all dateStr empty_date) dateStr
      | found \<Rightarrow> found)"

definition saveAttendanceForDate :: "store \<Rightarrow> string \<Rightarrow> date_attendance \<Rightarrow> store" where
  "saveAttendanceForDate s dateStr data =
     (let all = getAttendance s in saveAttendance s (js_set all dateStr data))"

definition getDesignationHistory :: "store \<Rightarrow> designation_history" where
  "getDesignationHistory s = hc_designation_history s"

definition saveDesignationHistory :: "store \<Rightarrow> designation_history \<Rightarrow> store" where
  "saveDesignationHistory s h = s\<lparr>hc_designation_history := h\<rparr>"

subsection \<open>Auth\<close>

text \<open>
  JavaScript truthiness of the two nullable session fields: \<^verbatim>\<open>null\<close>, the number 0 and
  the empty string are falsy.
\<close>

definition truthy_num :: "nat option \<Rightarrow> bool" where
  "truthy_num v = (case v of None \<Rightarrow> False | Some n \<Rightarrow> n \<noteq> 0)"

definition truthy_str :: "string option \<Rightarrow> bool" where
  "truthy_str v = (case v of None \<Rightarrow> False | Some u \<Rightarrow> u \<noteq> [])"

datatype error = AccountLocked nat | InvalidCredentials | AccountDisabled

definition handleFailedLogin :: "store \<Rightarrow> nat \<Rightarrow> store" where
  "handleFailedLogin s now =
     (let sess = getSession s;
          c = count (failedLogin sess) + 1;
          fl = (failedLogin sess)\<lparr>count := c\<rparr>;
          fl' = (if c \<ge> MAX_LOGIN_ATTEMPTS
                 then fl\<lparr>cooldownUntil := Some (now + LOCKOUT_DURATION)\<rparr> else fl)
      in saveSession s (sess\<lparr>failedLogin := fl'\<rparr>))"

text \<open>
  \<^verbatim>\<open>Auth.login\<close>. The digest \<^verbatim>\<open>Utils.hashPassword\<close> (SHA-256 of password and salt, from the
  browser's \<^verbatim>\<open>crypto.subtle\<close>) is the parameter \<open>H\<close>. A thrown \<^verbatim>\<open>Error\<close> is the \<open>Inl\<close>
  result; the remaining minutes of a lockout are \<^verbatim>\<open>Math.ceil\<close> of the remaining
  milliseconds over 60000.
\<close>

definition login ::
  "(string \<Rightarrow> string \<Rightarrow> string) \<Rightarrow> store \<Rightarrow> nat \<Rightarrow> string \<Rightarrow> string \<Rightarrow> (error + unit) \<times> store" where
  "login H s now uname password =
     (let sess = getSession s in
      if truthy_num (cooldownUntil (failedLogin sess))
         \<and> now < (case cooldownUntil (failedLogin sess) of None \<Rightarrow> 0 | Some c \<Rightarrow> c)
      then (Inl (AccountLocked
              (((case cooldownUntil (failedLogin sess) of None \<Rightarrow> 0 | Some c \<Rightarrow> c) - now + 59999)
                 div 60000)), s)
      else
        (case find (\<lambda>u. username u = uname) (getUsers s) of
           None \<Rightarrow> (Inl InvalidCredentials, handleFailedLogin s now)
         | Some u \<Rightarrow>
             if disabled u then (Inl AccountDisabled, s)
             else if H password (salt u) \<noteq> passwordHash u
             then (Inl InvalidCredentials, handleFailedLogin s now)
             else (Inr (),
                   saveSession s
                     (sess\<lparr>currentUser := Some uname,
                           expiresAt := Some (now + SESSION_DURATION),
                           failedLogin := \<lparr>count = 0, cooldownUntil = None\<rparr>\<rparr>))))"

definition logout :: "store \<Rightarrow> store" where
  "logout s =
     (let sess = getSession s
      in saveSession s (sess\<lparr>currentUser := None, expiresAt := None\<rparr>))"

definition getCurrentUser :: "store \<Rightarrow> nat \<Rightarrow> user option \<times> store" where
  "getCurrentUser s now =
     (let sess = getSession s in
      if \<not> truthy_str (currentUser sess) then (None, s)
      else if truthy_num (expiresAt sess)
              \<and> now > (case expiresAt sess of None \<Rightarrow> 0 | Some e \<Rightarrow> e)
      then (None, logout s)
      else
        (case find (\<lambda>u. Some (username u) = currentUser sess) (getUsers s) of
           None \<Rightarrow> (None, logout s)
         | Some u \<Rightarrow> if disabled u then (None, logout s) else (Some u, s)))"

text \<open>
  The session states that the code writes: \<^verbatim>\<open>login\<close> sets \<^verbatim>\<open>currentUser\<close> and \<^verbatim>\<open>expiresAt\<close>
  together, \<^verbatim>\<open>logout\<close> clears them together, the user name is not empty (the login
  screen and the user forms refuse an empty name) and the expiry is a time after 0.
\<close>

definition session_wf :: "session \<Rightarrow> bool" where
  "session_wf sess =
     ((currentUser sess = None) = (expiresAt sess = None)
      \<and> currentUser sess \<noteq> Some [] \<and> expiresAt sess \<noteq> Some 0)"

subsection \<open>DesignationMgr\<close>

text \<open>\<^verbatim>\<open>String.prototype.includes\<close>: the needle occurs as a contiguous part.\<close>

fun starts_with :: "ustring \<Rightarrow> ustring \<Rightarrow> bool" where
  "starts_with _ [] = True"
| "starts_with [] (n # ns) = False"
| "starts_with (c # cs) (n # ns) = (c = n \<and> starts_with cs ns)"

fun str_includes :: "ustring \<Rightarrow> ustring \<Rightarrow> bool" where
  "str_includes [] needle = (needle = [])"
| "str_includes (c # cs) needle = (starts_with (c # cs) needle \<or> str_includes cs needle)"

text \<open>
  \<^verbatim>\<open>addToHistory\<close>. When the area name is not an own key of \<^verbatim>\<open>h.byArea\<close> but an inherited
  one, \<^verbatim>\<open>h.byArea[areaName]\<close> is truthy, no list is made, and the call of \<^verbatim>\<open>.filter\<close> on it
  throws before anything is saved.
\<close>

definition addToHistory ::
  "(ustring \<Rightarrow> ustring) \<Rightarrow> store \<Rightarrow> ustring \<Rightarrow> string \<Rightarrow> (js_exn + unit) \<times> store" where
  "addToHistory L s label areaName =
     (let norm = normalizeDesignation L label;
          h = getDesignationHistory s;
          g = take MAX_GLOBAL_DESIGNATION_HISTORY
                (label # filter (\<lambda>d. normalizeDesignation L d \<noteq> norm) (h_global h))
      in case (case js_get (h_byArea h) areaName of Absent \<Rightarrow> Own [] | found \<Rightarrow> found) of
           Own old \<Rightarrow>
             (let a = take MAX_AREA_DESIGNATION_HISTORY
                        (label # filter (\<lambda>d. normalizeDesignation L d \<noteq> norm) old)
              in (Inr (),
                  saveDesignationHistory s
                    (h\<lparr>h_global := g, h_byArea := js_set (h_byArea h) areaName a\<rparr>)))
         | _ \<Rightarrow> (Inl TypeError, s))"

definition getSuggestions ::
  "(ustring \<Rightarrow> ustring) \<Rightarrow> store \<Rightarrow> ustring \<Rightarrow> string \<Rightarrow> js_exn + ustring list" where
  "getSuggestions L s partial areaName =
     (let norm = normalizeDesignation L partial;
          h = getDesignationHistory s;
          found = (if areaName \<noteq> [] then js_get (h_byArea h) areaName else Absent)
      in case found of
           Inherited \<Rightarrow> Inl TypeError
         | _ \<Rightarrow>
             (let suggestions =
                    (case found of
                       Own l \<Rightarrow> filter (\<lambda>d. str_includes (normalizeDesignation L d) norm) l
                     | _ \<Rightarrow> [])
              in if length suggestions < 5
                 then Inr (take 5 (suggestions @
                        filter (\<lambda>d. str_includes (normalizeDesignation L d) norm
                                     \<and> d \<notin> set suggestions)
                          (h_global h)))
                 else Inr suggestions))"

subsection \<open>Audit\<close>

text \<open>
  \<^verbatim>\<open>Audit.addEntry\<close>. On what a date key inherits, \<^verbatim>\<open>data.audit\<close> is \<^verbatim>\<open>undefined\<close> and
  \<^verbatim>\<open>unshift\<close> throws.
\<close>

definition addEntry ::
  "store \<Rightarrow> nat \<Rightarrow> string \<Rightarrow> string \<Rightarrow> ustring \<Rightarrow> string \<Rightarrow> jsval \<Rightarrow> jsval
     \<Rightarrow> (js_exn + unit) \<times> store" where
  "addEntry s now dateStr areaName dKey field oldVal newVal =
     (case getCurrentUser s now of
        (None, s1) \<Rightarrow> (Inr (), s1)
      | (Some u, s1) \<Rightarrow>
          (case getAttendanceForDate s1 dateStr of
             Own data \<Rightarrow>
               (let a = \<lparr>e_ts = now, e_user = username u, e_area = areaName,
                         e_designationKey = dKey, e_field = field,
                         e_from = oldVal, e_to = newVal\<rparr> # audit data;
                    a' = (if length a > MAX_AUDIT_ENTRIES then take MAX_AUDIT_ENTRIES a else a)
                in (Inr (), saveAttendanceForDate s1 dateStr (data\<lparr>audit := a'\<rparr>)))
           | _ \<Rightarrow> (Inl TypeError, s1)))"

text \<open>\<^verbatim>\<open>getEntries\<close>: \<^verbatim>\<open>.audit || []\<close> is the empty list on what a date key inherits.\<close>

definition getEntries :: "store \<Rightarrow> string \<Rightarrow> audit_entry list \<times> store" where
  "getEntries s dateStr =
     (case getAttendanceForDate s dateStr of
        Own data \<Rightarrow> (audit data, s)
      | _ \<Rightarrow> ([], s))"

subsection \<open>Attendance\<close>

text \<open>
  \<^verbatim>\<open>getAreaData\<close> returns \<^verbatim>\<open>data.areas[areaName] || { rows: [] }\<close>: an area (\<open>Own\<close>), or what
  the area name inherits (\<open>Inherited\<close>, truthy and without \<^verbatim>\<open>rows\<close>). On what a date key
  inherits, \<^verbatim>\<open>data.areas\<close> is \<^verbatim>\<open>undefined\<close> and the index throws.
\<close>

definition getAreaData ::
  "store \<Rightarrow> string \<Rightarrow> string \<Rightarrow> (js_exn + area_data property) \<times> store" where
  "getAreaData s dateStr areaName =
     (case getAttendanceForDate s dateStr of
        Own data \<Rightarrow>
          (case js_get (areas data) areaName of
             Absent \<Rightarrow> (Inr (Own \<lparr>rows = []\<rparr>), s)
           | found \<Rightarrow> (Inr found, s))
      | _ \<Rightarrow> (Inl TypeError, s))"

definition getRow ::
  "store \<Rightarrow> string \<Rightarrow> string \<Rightarrow> ustring \<Rightarrow> (js_exn + row option) \<times> store" where
  "getRow s dateStr areaName dKey =
     (case getAreaData s dateStr areaName of
        (Inr (Own area), s1) \<Rightarrow> (Inr (find (\<lambda>r. designationKey r = dKey) (rows area)), s1)
      | (_, s1) \<Rightarrow> (Inl TypeError, s1))"

definition addOrUpdateRow ::
  "(ustring \<Rightarrow> ustring) \<Rightarrow> store \<Rightarrow> nat \<Rightarrow> string \<Rightarrow> string \<Rightarrow> ustring
     \<Rightarrow> (js_exn + row option) \<times> store" where
  "addOrUpdateRow L s now dateStr areaName label =
     (case getCurrentUser s now of
        (None, s1) \<Rightarrow> (Inr None, s1)
      | (Some u, s1) \<Rightarrow>
          (let dKey = normalizeDesignation L label in
           case getAttendanceForDate s1 dateStr of
             Own data \<Rightarrow>
               (case (case js_get (areas data) areaName of
                        Absent \<Rightarrow> Own \<lparr>rows = []\<rparr> | found \<Rightarrow> found) of
                  Own area \<Rightarrow>
                    (case find (\<lambda>r. designationKey r = dKey) (rows area) of
                       Some r \<Rightarrow>
                         (Inr (Some r),
                          saveAttendanceForDate s1 dateStr
                            (data\<lparr>areas := js_set (areas data) areaName area,
                                  d_updatedAt := Some now,
                                  d_updatedBy := Some (username u)\<rparr>))
                     | None \<Rightarrow>
                         (let r = \<lparr>designationKey = dKey, designationLabel = label,
                                   present = JNull, confirmed = False,
                                   updatedAt = None, updatedBy = None\<rparr>;
                              area' = area\<lparr>rows := rows area @ [r]\<rparr>
                          in case addToHistory L s1 label areaName of
                               (Inl e, s2) \<Rightarrow> (Inl e, s2)
                             | (Inr _, s2) \<Rightarrow>
                                 (Inr (Some r),
                                  saveAttendanceForDate s2 dateStr
                                    (data\<lparr>areas := js_set (areas data) areaName area',
                                          d_updatedAt := Some now,
                                          d_updatedBy := Some (username u)\<rparr>))))
                | _ \<Rightarrow> (Inl TypeError, s1))
           | _ \<Rightarrow> (Inl TypeError, s1)))"

text \<open>
  The \<^verbatim>\<open>updates\<close> object of \<^verbatim>\<open>updateRow\<close>: a field is \<open>None\<close> when the key is not in the
  object (\<^verbatim>\<open>'present' in updates\<close> is false).
\<close>

record updates =
  u_present :: "jsval option"
  u_confirmed :: "bool option"

text \<open>\<^verbatim>\<open>Object.assign\<close> on the row that \<^verbatim>\<open>find\<close> returned changes the first match in place.\<close>

fun assign_first :: "('a \<Rightarrow> bool) \<Rightarrow> ('a \<Rightarrow> 'a) \<Rightarrow> 'a list \<Rightarrow> 'a list" where
  "assign_first P f [] = []"
| "assign_first P f (x # xs) = (if P x then f x # xs else x # assign_first P f xs)"

definition updateRow ::
  "store \<Rightarrow> nat \<Rightarrow> string \<Rightarrow> string \<Rightarrow> ustring \<Rightarrow> updates \<Rightarrow> (js_exn + unit) \<times> store" where
  "updateRow s now dateStr areaName dKey upd =
     (case getCurrentUser s now of
        (None, s1) \<Rightarrow> (Inr (), s1)
      | (Some u, s1) \<Rightarrow>
          (case getAttendanceForDate s1 dateStr of
             Own data \<Rightarrow>
               (case js_get (areas data) areaName of
                  Absent \<Rightarrow> (Inr (), s1)
                | Inherited \<Rightarrow> (Inl TypeError, s1)
                | Own area \<Rightarrow>
                    (case find (\<lambda>r. designationKey r = dKey) (rows area) of
                       None \<Rightarrow> (Inr (), s1)
                     | Some oldRow \<Rightarrow>
                         (case (case u_present upd of
                                  None \<Rightarrow> (Inr (), s1)
                                | Some p \<Rightarrow>
                                    if p \<noteq> present oldRow
                                    then addEntry s1 now dateStr areaName dKey ''present''
                                           (present oldRow) p
                                    else (Inr (), s1)) of
                            (Inl e, s2) \<Rightarrow> (Inl e, s2)
                          | (Inr _, s2) \<Rightarrow>
                              (case (case u_confirmed upd of
                                       None \<Rightarrow> (Inr (), s2)
                                     | Some c \<Rightarrow>
                                         if c \<noteq> confirmed oldRow
                                         then addEntry s2 now dateStr areaName dKey
                                                ''confirmed''
                                                (JBool (confirmed oldRow)) (JBool c)
                                         else (Inr (), s2)) of
                                 (Inl e, s3) \<Rightarrow> (Inl e, s3)
                               | (Inr _, s3) \<Rightarrow>
                                   (let assign =
                                          (\<lambda>r. r\<lparr>present := (case u_present upd of
                                                                None \<Rightarrow> present r | Some p \<Rightarrow> p),
                                                 confirmed := (case u_confirmed upd of
                                                                 None \<Rightarrow> confirmed r
                                                               | Some c \<Rightarrow> c),
                                                 updatedAt := Some now,
                                                 updatedBy := Some (username u)\<rparr>);
                                        area' = area\<lparr>rows :=
                                                  assign_first (\<lambda>r. designationKey r = dKey)
                                                    assign (rows area)\<rparr>
                                    in (Inr (),
                                        saveAttendanceForDate s3 dateStr
                                          (data\<lparr>areas := js_set (areas data) areaName area',
                                                d_updatedAt := Some now,
                                                d_updatedBy := Some (username u)\<rparr>)))))))
           | _ \<Rightarrow> (Inl TypeError, s1)))"

text \<open>\<^verbatim>\<open>findIndex\<close> (with \<open>None\<close> for -1) and \<^verbatim>\<open>splice(idx, 1)\<close>.\<close>

fun findIndex :: "('a \<Rightarrow> bool) \<Rightarrow> 'a list \<Rightarrow> nat option" where
  "findIndex P [] = None"
| "findIndex P (x # xs) =
     (if P x then Some 0 else (case findIndex P xs of None \<Rightarrow> None | Some i \<Rightarrow> Some (Suc i)))"

definition splice1 :: "nat \<Rightarrow> 'a list \<Rightarrow> 'a list" where
  "splice1 idx xs = take idx xs @ drop (Suc idx) xs"

definition deleteRow ::
  "store \<Rightarrow> string \<Rightarrow> string \<Rightarrow> ustring \<Rightarrow> (js_exn + unit) \<times> store" where
  "deleteRow s dateStr areaName dKey =
     (case getAttendanceForDate s dateStr of
        Own data \<Rightarrow>
          (case js_get (areas data) areaName of
             Absent \<Rightarrow> (Inr (), s)
           | Inherited \<Rightarrow> (Inl TypeError, s)
           | Own area \<Rightarrow>
               (case findIndex (\<lambda>r. designationKey r = dKey) (rows area) of
                  None \<Rightarrow> (Inr (), s)
                | Some idx \<Rightarrow>
                    (Inr (),
                     saveAttendanceForDate s dateStr
                       (data\<lparr>areas := js_set (areas data) areaName
                                         (area\<lparr>rows := splice1 idx (rows area)\<rparr>)\<rparr>))))
      | _ \<Rightarrow> (Inl TypeError, s))"

text \<open>
  The object that \<^verbatim>\<open>getAreaTotals\<close> returns, \<^verbatim>\<open>{ total, confirmed, rows }\<close>; the two
  counts carry the prefix \<open>n_\<close> here. The total is added up in doubles, from 0.
\<close>

record totals =
  total :: jsnum
  n_confirmed :: nat
  n_rows :: nat

definition getAreaTotals :: "store \<Rightarrow> string \<Rightarrow> string \<Rightarrow> (js_exn + totals) \<times> store" where
  "getAreaTotals s dateStr areaName =
     (case getAreaData s dateStr areaName of
        (Inr (Own area), s1) \<Rightarrow>
          (Inr \<lparr>total = foldl (\<lambda>acc r. js_plus acc
                                   (case present r of JNum n \<Rightarrow> Fin n | _ \<Rightarrow> Fin 0))
                           (Fin 0) (rows area),
                n_confirmed = length (filter confirmed (rows area)),
                n_rows = length (rows area)\<rparr>, s1)
      | (_, s1) \<Rightarrow> (Inl TypeError, s1))"

text \<open>\<^verbatim>\<open>getGrandTotal\<close>: the \<^verbatim>\<open>reduce\<close> over the areas, left at the first throw.\<close>

fun grand_total_from ::
  "jsnum \<Rightarrow> store \<Rightarrow> string \<Rightarrow> string list \<Rightarrow> (js_exn + jsnum) \<times> store" where
  "grand_total_from acc s dateStr [] = (Inr acc, s)"
| "grand_total_from acc s dateStr (areaName # rest) =
     (case getAreaTotals s dateStr areaName of
        (Inl e, s1) \<Rightarrow> (Inl e, s1)
      | (Inr t, s1) \<Rightarrow> grand_total_from (js_plus acc (total t)) s1 dateStr rest)"

definition getGrandTotal :: "store \<Rightarrow> string \<Rightarrow> string list \<Rightarrow> (js_exn + jsnum) \<times> store" where
  "getGrandTotal s dateStr areaNames = grand_total_from (Fin 0) s dateStr areaNames"

subsection \<open>Example states\<close>

text \<open>
  Concrete stores on which the theorems below are instantiated. The digest of the
  examples appends the salt to the password; the conversion of text outside the table
  of \<^verbatim>\<open>toLowerCase\<close> is the identity in the examples, whose labels are all inside it.
\<close>

definition concat_hash :: "string \<Rightarrow> string \<Rightarrow> string" where
  "concat_hash password slt = password @ slt"

definition bob :: user where
  "bob = \<lparr>username = ''bob'', role = ''user'', salt = ''s'', passwordHash = ''pws'',
          assignedAreas = [], createdAt = 0, disabled = False\<rparr>"

definition lockout_store :: "nat \<Rightarrow> nat option \<Rightarrow> store" where
  "lockout_store c cd =
     empty_store\<lparr>hc_users := [bob],
       hc_session := \<lparr>currentUser = None, expiresAt = None,
                      failedLogin = \<lparr>count = c, cooldownUntil = cd\<rparr>\<rparr>\<rparr>"

definition expired_store :: store where
  "expired_store = empty_store\<lparr>hc_users := [bob],
      hc_session := \<lparr>currentUser = Some ''bob'', expiresAt = Some 1000,
                     failedLogin = \<lparr>count = 0, cooldownUntil = None\<rparr>\<rparr>\<rparr>"

definition id_conversion :: "ustring \<Rightarrow> ustring" where
  "id_conversion s = s"

definition mk_row :: "string \<Rightarrow> jsval \<Rightarrow> bool \<Rightarrow> row" where
  "mk_row k p c = \<lparr>designationKey = u16 k, designationLabel = u16 k, present = p,
                   confirmed = c, updatedAt = None, updatedBy = None\<rparr>"

definition totals_store :: store where
  "totals_store = empty_store\<lparr>hc_attendance :=
     [''2024-01-01'' \<mapsto> empty_date\<lparr>areas :=
        [''PWHT'' \<mapsto> \<lparr>rows = [mk_row ''welder'' (JNum 3) True,
                                 mk_row ''fitter'' JNull False,
                                 mk_row ''rigger'' (JNum 5) True]\<rparr>]\<rparr>]\<rparr>"


definition audit_store :: store where
  "audit_store = totals_store\<lparr>hc_users := [bob],
      hc_session := \<lparr>currentUser = Some ''bob'', expiresAt = Some 28800000,
                     failedLogin = \<lparr>count = 0, cooldownUntil = None\<rparr>\<rparr>\<rparr>"


definition set_present :: "int \<Rightarrow> updates" where
  "set_present n = \<lparr>u_present = Some (JNum n), u_confirmed = None\<rparr>"

text \<open>Eleven audited changes of one row, one after the other.\<close>

definition eleven_changes :: "store \<Rightarrow> store" where
  "eleven_changes s =
     foldl (\<lambda>s1 n. snd (updateRow s1 (1000 + nat n) ''2024-01-01'' ''PWHT'' (u16 ''fitter'')
                           (set_present n)))
       s [1, 2, 3, 4, 5, 6, 7, 8, 9, 10, 11]"

text \<open>Six designations recorded for one area, one after the other.\<close>

definition six_welders :: store where
  "six_welders =
     foldl (\<lambda>s l. snd (addToHistory id_conversion s l ''PWHT'')) empty_store
       (map u16 [''Welder 1'', ''Welder 2'', ''Welder 3'', ''Welder 4'', ''Welder 5'',
                 ''Welder 6''])"

subsection \<open>Vocabulary of the statements\<close>


definition date_doc :: "store \<Rightarrow> string \<Rightarrow> date_attendance" where
  "date_doc s dateStr = (case hc_attendance s dateStr of None \<Rightarrow> empty_date | Some doc \<Rightarrow> doc)"

definition stored_rows :: "store \<Rightarrow> string \<Rightarrow> string \<Rightarrow> row list" where
  "stored_rows s dateStr areaName =
     (case areas (date_doc s dateStr) areaName of None \<Rightarrow> [] | Some area \<Rightarrow> rows area)"



section \<open>The session and lockout state machine\<close>

subsection \<open>The session invariant\<close>

lemma session_wf_default: "session_wf default_session"
  by (simp add: session_wf_def default_session_def)

lemma session_wf_logout: "session_wf (hc_session s) \<Longrightarrow> session_wf (hc_session (logout s))"
  by (simp add: session_wf_def logout_def saveSession_def getSession_def)

lemma session_wf_handleFailedLogin:
  "session_wf (hc_session s) \<Longrightarrow> session_wf (hc_session (handleFailedLogin s now))"
  by (simp add: session_wf_def handleFailedLogin_def saveSession_def getSession_def Let_def)

lemma session_wf_logged_in:
  "uname \<noteq> [] \<Longrightarrow>
   session_wf (hc_session (saveSession s
     (sess\<lparr>currentUser := Some uname, expiresAt := Some (now + SESSION_DURATION),
           failedLogin := fl\<rparr>)))"
  by (simp add: session_wf_def saveSession_def SESSION_DURATION_def)

lemma session_wf_login:
  "session_wf (hc_session s) \<Longrightarrow> uname \<noteq> [] \<Longrightarrow>
   session_wf (hc_session (snd (login H s now uname password)))"
  by (simp add: login_def Let_def session_wf_handleFailedLogin session_wf_logged_in
        split: option.splits)

lemma session_wf_getCurrentUser:
  "session_wf (hc_session s) \<Longrightarrow> session_wf (hc_session (snd (getCurrentUser s now)))"
  by (auto simp: getCurrentUser_def Let_def session_wf_logout split: option.splits)

text \<open>
  Claim C4. A session whose \<^verbatim>\<open>expiresAt\<close> lies in the past makes \<^verbatim>\<open>getCurrentUser\<close> return
  nothing and, as a side effect, clear \<^verbatim>\<open>currentUser\<close> and \<^verbatim>\<open>expiresAt\<close> in the stored
  session (the lockout counter and every other document stay as they are); a second
  call, at any time, again returns nothing and leaves the store as it is. The session
  is one that the code wrote (\<open>session_wf\<close>).
\<close>

theorem C4_expired_session:
  assumes wf: "session_wf (hc_session s)"
    and ex: "expiresAt (hc_session s) = Some e"
    and past: "e < now"
  shows "getCurrentUser s now =
           (None, s\<lparr>hc_session := (hc_session s)\<lparr>currentUser := None, expiresAt := None\<rparr>\<rparr>)
         \<and> currentUser (hc_session (snd (getCurrentUser s now))) = None
         \<and> expiresAt (hc_session (snd (getCurrentUser s now))) = None
         \<and> getCurrentUser (snd (getCurrentUser s now)) now' = (None, snd (getCurrentUser s now))"
proof -
  from wf ex obtain u where u: "currentUser (hc_session s) = Some u" "u \<noteq> []" "e \<noteq> 0"
    by (cases "currentUser (hc_session s)") (auto simp: session_wf_def)
  have first: "getCurrentUser s now =
      (None, s\<lparr>hc_session := (hc_session s)\<lparr>currentUser := None, expiresAt := None\<rparr>\<rparr>)"
    using u ex past
    by (simp add: getCurrentUser_def getSession_def truthy_str_def truthy_num_def logout_def
          saveSession_def)
  have second: "getCurrentUser (s\<lparr>hc_session := (hc_session s)\<lparr>currentUser := None, expiresAt := None\<rparr>\<rparr>) now'
      = (None, s\<lparr>hc_session := (hc_session s)\<lparr>currentUser := None, expiresAt := None\<rparr>\<rparr>)"
    by (simp add: getCurrentUser_def getSession_def truthy_str_def)
  show ?thesis unfolding first using second by simp
qed

theorem C4_expired_session_witness:
  "session_wf (hc_session expired_store)
   \<and> expiresAt (hc_session expired_store) = Some 1000
   \<and> (1000::nat) < 2000
   \<and> getCurrentUser expired_store 2000 =
       (None, expired_store\<lparr>hc_session :=
                (hc_session expired_store)\<lparr>currentUser := None, expiresAt := None\<rparr>\<rparr>)
   \<and> currentUser (hc_session (snd (getCurrentUser expired_store 2000))) = None
   \<and> expiresAt (hc_session (snd (getCurrentUser expired_store 2000))) = None
   \<and> getCurrentUser (snd (getCurrentUser expired_store 2000)) 2000
       = (None, snd (getCurrentUser expired_store 2000))"
proof -
  have wf: "session_wf (hc_session expired_store)"
    by (simp add: expired_store_def session_wf_def)
  have ex: "expiresAt (hc_session expired_store) = Some 1000"
    by (simp add: expired_store_def)
  have lt: "(1000::nat) < 2000" by simp
  show ?thesis using wf ex lt C4_expired_session [OF wf ex lt, of 2000] by blast
qed

subsection \<open>Lockout\<close>

lemma login_locked:
  "cooldownUntil (failedLogin (hc_session s)) = Some c \<Longrightarrow> now < c \<Longrightarrow>
   login H s now u p = (Inl (AccountLocked ((c - now + 59999) div 60000)), s)"
  by (simp add: login_def getSession_def truthy_num_def)

lemma login_invalid:
  "login H s now u p = (Inl InvalidCredentials, s') \<Longrightarrow> s' = handleFailedLogin s now"
  by (auto simp: login_def Let_def split: if_splits option.splits)

lemma login_success:
  "cooldownUntil (failedLogin (hc_session s)) = Some c \<Longrightarrow> c \<le> now \<Longrightarrow>
   find (\<lambda>x. username x = uname) (hc_users s) = Some usr \<Longrightarrow> \<not> disabled usr \<Longrightarrow>
   H p (salt usr) = passwordHash usr \<Longrightarrow>
   login H s now uname p =
     (Inr (), s\<lparr>hc_session := \<lparr>currentUser = Some uname,
                    expiresAt = Some (now + SESSION_DURATION),
                    failedLogin = \<lparr>count = 0, cooldownUntil = None\<rparr>\<rparr>\<rparr>)"
  by (simp add: login_def getSession_def getUsers_def saveSession_def truthy_num_def)

lemma handleFailedLogin_count:
  "count (failedLogin (hc_session (handleFailedLogin s now))) =
     count (failedLogin (hc_session s)) + 1"
  by (simp add: handleFailedLogin_def getSession_def saveSession_def Let_def)

lemma handleFailedLogin_cooldown:
  "MAX_LOGIN_ATTEMPTS \<le> count (failedLogin (hc_session s)) + 1 \<Longrightarrow>
   cooldownUntil (failedLogin (hc_session (handleFailedLogin s now))) =
     Some (now + LOCKOUT_DURATION)"
  by (simp add: handleFailedLogin_def getSession_def saveSession_def Let_def)

lemma handleFailedLogin_users: "hc_users (handleFailedLogin s now) = hc_users s"
  by (simp add: handleFailedLogin_def getSession_def saveSession_def Let_def)

lemma login_not_success_count:
  "fst (login H s now u p) \<noteq> Inr () \<Longrightarrow>
   count (failedLogin (hc_session s)) \<le> count (failedLogin (hc_session (snd (login H s now u p))))"
  by (auto simp: login_def Let_def handleFailedLogin_count split: option.splits if_splits)

lemma logout_failedLogin: "failedLogin (hc_session (logout s)) = failedLogin (hc_session s)"
  by (simp add: logout_def getSession_def saveSession_def)

lemma getCurrentUser_failedLogin:
  "failedLogin (hc_session (snd (getCurrentUser s now))) = failedLogin (hc_session s)"
  by (simp add: getCurrentUser_def Let_def logout_failedLogin split: option.splits)

lemmas lockout_defs =
  login_def handleFailedLogin_def getSession_def getUsers_def saveSession_def truthy_num_def
  lockout_store_def empty_store_def bob_def concat_hash_def MAX_LOGIN_ATTEMPTS_def
  LOCKOUT_DURATION_def SESSION_DURATION_def Let_def

text \<open>
  Claim C2. Five consecutive login attempts that fail with \<open>InvalidCredentials\<close> (a wrong
  password for an enabled account or an unknown user name, in any mix of user names and
  at any times) leave the cooldown at the time of the fifth failure plus the lockout
  duration and the counter five higher. Then every attempt before the cooldown,
  whatever its credentials, fails with \<open>AccountLocked\<close> and writes nothing; and once the
  cooldown has elapsed, an attempt with the right password of an existing, enabled
  account succeeds, opens the session and resets the counter to 0 and the cooldown to
  \<^verbatim>\<open>null\<close>.
\<close>

theorem C2_lockout:
  assumes a1: "login H s0 t1 u1 p1 = (Inl InvalidCredentials, s1)"
    and a2: "login H s1 t2 u2 p2 = (Inl InvalidCredentials, s2)"
    and a3: "login H s2 t3 u3 p3 = (Inl InvalidCredentials, s3)"
    and a4: "login H s3 t4 u4 p4 = (Inl InvalidCredentials, s4)"
    and a5: "login H s4 t5 u5 p5 = (Inl InvalidCredentials, s5)"
  shows "cooldownUntil (failedLogin (hc_session s5)) = Some (t5 + LOCKOUT_DURATION)
       \<and> count (failedLogin (hc_session s5)) = count (failedLogin (hc_session s0)) + 5
       \<and> (\<forall>now u p. now < t5 + LOCKOUT_DURATION \<longrightarrow>
            login H s5 now u p =
              (Inl (AccountLocked ((t5 + LOCKOUT_DURATION - now + 59999) div 60000)), s5))
       \<and> (\<forall>now uname p usr.
            t5 + LOCKOUT_DURATION \<le> now
            \<and> find (\<lambda>x. username x = uname) (hc_users s5) = Some usr
            \<and> \<not> disabled usr \<and> H p (salt usr) = passwordHash usr \<longrightarrow>
            login H s5 now uname p =
              (Inr (), s5\<lparr>hc_session := \<lparr>currentUser = Some uname,
                             expiresAt = Some (now + SESSION_DURATION),
                             failedLogin = \<lparr>count = 0, cooldownUntil = None\<rparr>\<rparr>\<rparr>))"
proof -
  have e: "s1 = handleFailedLogin s0 t1" "s2 = handleFailedLogin s1 t2"
    "s3 = handleFailedLogin s2 t3" "s4 = handleFailedLogin s3 t4"
    "s5 = handleFailedLogin s4 t5"
    using a1 a2 a3 a4 a5 by (simp_all add: login_invalid)
  have cnt: "count (failedLogin (hc_session s5)) = count (failedLogin (hc_session s0)) + 5"
    by (simp add: e handleFailedLogin_count)
  have "count (failedLogin (hc_session s4)) = count (failedLogin (hc_session s0)) + 4"
    by (simp add: e handleFailedLogin_count)
  then have cd: "cooldownUntil (failedLogin (hc_session s5)) = Some (t5 + LOCKOUT_DURATION)"
    unfolding e(5) by (intro handleFailedLogin_cooldown) (simp add: MAX_LOGIN_ATTEMPTS_def)
  show ?thesis
    using cnt cd login_locked [OF cd] login_success [OF cd] by blast
qed

theorem C2_lockout_witness:
  "login concat_hash (lockout_store 0 None) 1 ''bob'' ''x''
     = (Inl InvalidCredentials, lockout_store 1 None)
   \<and> login concat_hash (lockout_store 1 None) 2 ''eve'' ''pw''
     = (Inl InvalidCredentials, lockout_store 2 None)
   \<and> login concat_hash (lockout_store 2 None) 3 ''bob'' ''y''
     = (Inl InvalidCredentials, lockout_store 3 None)
   \<and> login concat_hash (lockout_store 3 None) 4 ''mallory'' ''z''
     = (Inl InvalidCredentials, lockout_store 4 None)
   \<and> login concat_hash (lockout_store 4 None) 5 ''bob'' ''pq''
     = (Inl InvalidCredentials, lockout_store 5 (Some 300005))
   \<and> login concat_hash (lockout_store 5 (Some 300005)) 6 ''bob'' ''pw''
     = (Inl (AccountLocked 5), lockout_store 5 (Some 300005))
   \<and> login concat_hash (lockout_store 5 (Some 300005)) 300005 ''bob'' ''pw''
     = (Inr (), (lockout_store 5 (Some 300005))\<lparr>hc_session :=
          \<lparr>currentUser = Some ''bob'', expiresAt = Some 29100005,
           failedLogin = \<lparr>count = 0, cooldownUntil = None\<rparr>\<rparr>\<rparr>)"
proof -
  have h1: "login concat_hash (lockout_store 0 None) 1 ''bob'' ''x''
     = (Inl InvalidCredentials, lockout_store 1 None)"
    by (simp add: lockout_defs)
  have h2: "login concat_hash (lockout_store 1 None) 2 ''eve'' ''pw''
     = (Inl InvalidCredentials, lockout_store 2 None)"
    by (simp add: lockout_defs)
  have h3: "login concat_hash (lockout_store 2 None) 3 ''bob'' ''y''
     = (Inl InvalidCredentials, lockout_store 3 None)"
    by (simp add: lockout_defs)
  have h4: "login concat_hash (lockout_store 3 None) 4 ''mallory'' ''z''
     = (Inl InvalidCredentials, lockout_store 4 None)"
    by (simp add: lockout_defs)
  have h5: "login concat_hash (lockout_store 4 None) 5 ''bob'' ''pq''
     = (Inl InvalidCredentials, lockout_store 5 (Some 300005))"
    by (simp add: lockout_defs)
  note th = C2_lockout [OF h1 h2 h3 h4 h5]
  have locked: "login concat_hash (lockout_store 5 (Some 300005)) 6 ''bob'' ''pw''
     = (Inl (AccountLocked 5), lockout_store 5 (Some 300005))"
    using th [THEN conjunct2, THEN conjunct2, THEN conjunct1, rule_format, of 6 "''bob''" "''pw''"]
    by (simp add: LOCKOUT_DURATION_def)
  have "find (\<lambda>x. username x = ''bob'') (hc_users (lockout_store 5 (Some 300005))) = Some bob
        \<and> \<not> disabled bob \<and> concat_hash ''pw'' (salt bob) = passwordHash bob"
    by (simp add: lockout_store_def bob_def concat_hash_def)
  then have ok: "login concat_hash (lockout_store 5 (Some 300005)) 300005 ''bob'' ''pw''
     = (Inr (), (lockout_store 5 (Some 300005))\<lparr>hc_session :=
          \<lparr>currentUser = Some ''bob'', expiresAt = Some 29100005,
           failedLogin = \<lparr>count = 0, cooldownUntil = None\<rparr>\<rparr>\<rparr>)"
    using th [THEN conjunct2, THEN conjunct2, THEN conjunct2, rule_format,
              of 300005 "''bob''" bob "''pw''"]
    by (simp add: LOCKOUT_DURATION_def SESSION_DURATION_def)
  show ?thesis using h1 h2 h3 h4 h5 locked ok by blast
qed

text \<open>
  Claim C9. The counter is reset only by a successful login, never by the cooldown
  running out: in a state whose counter has reached 5 and whose cooldown has passed, one
  more failed attempt raises the counter by one (it stays at or above 5) and sets the
  cooldown to now plus the full lockout duration, so that every attempt before that time
  is locked out again. Moreover \<^verbatim>\<open>logout\<close> and \<^verbatim>\<open>getCurrentUser\<close> leave \<^verbatim>\<open>failedLogin\<close> alone
  and no login that does not succeed lowers the counter.
\<close>

theorem C9_relock:
  assumes reached: "MAX_LOGIN_ATTEMPTS \<le> count (failedLogin (hc_session s))"
    and passed: "cooldownUntil (failedLogin (hc_session s)) = Some c" "c \<le> now"
    and failed: "login H s now u p = (Inl InvalidCredentials, s')"
  shows "count (failedLogin (hc_session s')) = count (failedLogin (hc_session s)) + 1
       \<and> MAX_LOGIN_ATTEMPTS \<le> count (failedLogin (hc_session s'))
       \<and> cooldownUntil (failedLogin (hc_session s')) = Some (now + LOCKOUT_DURATION)
       \<and> (\<forall>t u' p'. t < now + LOCKOUT_DURATION \<longrightarrow>
            login H s' t u' p' =
              (Inl (AccountLocked ((now + LOCKOUT_DURATION - t + 59999) div 60000)), s'))
       \<and> (\<forall>t. failedLogin (hc_session (logout s)) = failedLogin (hc_session s)
              \<and> failedLogin (hc_session (snd (getCurrentUser s t))) = failedLogin (hc_session s))
       \<and> (\<forall>t u' p'. fst (login H s t u' p') \<noteq> Inr () \<longrightarrow>
            count (failedLogin (hc_session s))
              \<le> count (failedLogin (hc_session (snd (login H s t u' p')))))"
proof -
  have s': "s' = handleFailedLogin s now" using failed by (rule login_invalid)
  have cnt: "count (failedLogin (hc_session s')) = count (failedLogin (hc_session s)) + 1"
    by (simp add: s' handleFailedLogin_count)
  have cd: "cooldownUntil (failedLogin (hc_session s')) = Some (now + LOCKOUT_DURATION)"
    unfolding s' using reached by (intro handleFailedLogin_cooldown) simp
  show ?thesis
    using cnt cd reached login_locked [OF cd] login_not_success_count [of H s]
      logout_failedLogin [of s] getCurrentUser_failedLogin [of s]
    by auto
qed

theorem C9_relock_witness:
  "MAX_LOGIN_ATTEMPTS \<le> count (failedLogin (hc_session (lockout_store 5 (Some 300005))))
   \<and> cooldownUntil (failedLogin (hc_session (lockout_store 5 (Some 300005)))) = Some 300005
   \<and> (300005::nat) \<le> 400000
   \<and> login concat_hash (lockout_store 5 (Some 300005)) 400000 ''bob'' ''bad''
       = (Inl InvalidCredentials, lockout_store 6 (Some 700000))
   \<and> count (failedLogin (hc_session (lockout_store 6 (Some 700000)))) = 6
   \<and> cooldownUntil (failedLogin (hc_session (lockout_store 6 (Some 700000)))) = Some 700000
   \<and> login concat_hash (lockout_store 6 (Some 700000)) 400001 ''bob'' ''pw''
       = (Inl (AccountLocked 5), lockout_store 6 (Some 700000))"
proof -
  have r: "MAX_LOGIN_ATTEMPTS \<le> count (failedLogin (hc_session (lockout_store 5 (Some 300005))))"
    by (simp add: lockout_store_def MAX_LOGIN_ATTEMPTS_def)
  have c: "cooldownUntil (failedLogin (hc_session (lockout_store 5 (Some 300005)))) = Some 300005"
    by (simp add: lockout_store_def)
  have le: "(300005::nat) \<le> 400000" by simp
  have f: "login concat_hash (lockout_store 5 (Some 300005)) 400000 ''bob'' ''bad''
       = (Inl InvalidCredentials, lockout_store 6 (Some 700000))"
    by (simp add: lockout_defs)
  note th = C9_relock [OF r c le f]
  have n: "count (failedLogin (hc_session (lockout_store 6 (Some 700000)))) = 6"
    using th [THEN conjunct1] by (simp add: lockout_store_def)
  have cd: "cooldownUntil (failedLogin (hc_session (lockout_store 6 (Some 700000)))) = Some 700000"
    using th [THEN conjunct2, THEN conjunct2, THEN conjunct1] by (simp add: LOCKOUT_DURATION_def)
  have lk: "login concat_hash (lockout_store 6 (Some 700000)) 400001 ''bob'' ''pw''
       = (Inl (AccountLocked 5), lockout_store 6 (Some 700000))"
    using th [THEN conjunct2, THEN conjunct2, THEN conjunct2, THEN conjunct1, rule_format,
              of 400001 "''bob''" "''pw''"]
    by (simp add: LOCKOUT_DURATION_def)
  show ?thesis using r c le f n cd lk by blast
qed

section \<open>Sums in doubles\<close>








section \<open>Normalization of labels\<close>

lemma ws_low: "9 \<le> c \<Longrightarrow> c \<le> 13 \<Longrightarrow> c = 9 \<or> c = 10 \<or> c = 11 \<or> c = 12 \<or> c = (13::nat)"
  by arith

lemma ws_high:
  "8192 \<le> c \<Longrightarrow> c \<le> 8202 \<Longrightarrow>
   c = 8192 \<or> c = 8193 \<or> c = 8194 \<or> c = 8195 \<or> c = 8196 \<or> c = 8197 \<or> c = 8198
   \<or> c = 8199 \<or> c = 8200 \<or> c = 8201 \<or> c = (8202::nat)"
  by arith

lemma is_ws_imp: "is_ws c \<Longrightarrow> white_space c"
  by (auto simp: is_ws_def white_space_def)

lemma white_space_imp: "white_space c \<Longrightarrow> is_ws c"
  unfolding white_space_def
  by (elim disjE conjE) (use ws_low [of c] ws_high [of c] in \<open>auto simp: is_ws_def\<close>)

lemma is_ws_eq: "is_ws = white_space"
  using is_ws_imp white_space_imp by (intro ext iffI)

lemmas trimStart_ws = trimStart_def [unfolded is_ws_eq]

lemmas trimEnd_ws = trimEnd_def [unfolded is_ws_eq]

lemmas collapse_ws_ws = collapse_ws.simps [unfolded is_ws_eq]

declare collapse_ws.simps [simp del]

declare collapse_ws_ws [simp]

lemma white_space_lower: "white_space (lower_unit c) = white_space c"
  unfolding white_space_def lower_unit_def by (simp split: if_splits; arith)

lemma lower_unit_eq_iff:
  "c < 256 \<Longrightarrow> d < 256 \<Longrightarrow> (lower_unit c = lower_unit d) = same_letter c d"
  unfolding lower_unit_def same_letter_def case_pair_def by (simp split: if_splits; arith)

lemma lower_unit_space: "lower_unit 0x20 = 0x20"
  by (simp add: lower_unit_def)

lemma collapse_ws_word:
  "\<forall>x\<in>set w. \<not> white_space x \<Longrightarrow> collapse_ws (w @ r) = w @ collapse_ws r"
  by (induction w) simp_all

lemma trimEnd_Cons:
  "trimEnd (y # t) =
     (if \<forall>x\<in>set t. white_space x then (if white_space y then [] else [y]) else y # trimEnd t)"
  by (simp add: trimEnd_ws dropWhile_append)

lemma trimEnd_Nil: "trimEnd [] = []"
  by (simp add: trimEnd_ws)

lemma trimEnd_word:
  assumes "\<forall>x\<in>set w. \<not> white_space x"
  shows "trimEnd w = w"
proof -
  have "dropWhile white_space (rev w) = rev w"
  proof (cases "rev w")
    case Nil
    then show ?thesis by simp
  next
    case (Cons y ys)
    then have "y \<in> set w" by (metis list.set_intros(1) set_rev)
    then have "\<not> white_space y" using assms by blast
    then show ?thesis using Cons by simp
  qed
  then show ?thesis by (simp add: trimEnd_ws)
qed

lemma trimEnd_append:
  "trimEnd (w @ r) = (if \<forall>x\<in>set r. white_space x then trimEnd w else w @ trimEnd r)"
  by (simp add: trimEnd_ws dropWhile_append)

lemma collapse_ws_dropWhile:
  "collapse_ws (dropWhile white_space x) =
     (if x \<noteq> [] \<and> white_space (hd x) then tl (collapse_ws x) else collapse_ws x)"
  by (cases x) simp_all

lemma words_of_blank: "\<forall>x\<in>set t. white_space x \<Longrightarrow> words_of t = []"
  by (induction t) simp_all

lemma words_of_not_blank: "\<not> (\<forall>x\<in>set t. white_space x) \<Longrightarrow> words_of t \<noteq> []"
  by (induction t) (auto split: if_splits)

lemma words_of_dropWhile: "words_of (dropWhile white_space s) = words_of s"
  by (induction s) simp_all

lemma join_words_Cons:
  "ws \<noteq> [] \<Longrightarrow> join_words (w # ws) = w @ 0x20 # join_words ws"
  by (cases ws) simp_all

lemma hd_dropWhile_not: "dropWhile (\<lambda>x. \<not> white_space x) cs \<noteq> [] \<Longrightarrow> white_space (hd (dropWhile (\<lambda>x. \<not> white_space x) cs))"
  using hd_dropWhile [of "\<lambda>x. \<not> white_space x" cs] by simp

lemma collapse_trimEnd_ws:
  "white_space c \<Longrightarrow>
   collapse_ws (trimEnd (c # cs)) =
     (if \<forall>x\<in>set cs. white_space x then []
      else 0x20 # collapse_ws (dropWhile white_space (trimEnd cs)))"
  by (simp add: trimEnd_Cons)

lemma trimEnd_hd:
  assumes "\<not> (\<forall>x\<in>set cs. white_space x)"
  shows "trimEnd cs \<noteq> [] \<and> hd (trimEnd cs) = hd cs"
proof (cases cs)
  case Nil
  then show ?thesis using assms by simp
next
  case (Cons y ys)
  show ?thesis
  proof (cases "\<forall>x\<in>set ys. white_space x")
    case True
    then have "\<not> white_space y" using assms Cons by auto
    then show ?thesis using True Cons by (simp add: trimEnd_Cons)
  next
    case False
    then show ?thesis using Cons by (simp add: trimEnd_Cons)
  qed
qed

lemma collapse_trimEnd_word:
  assumes "\<not> white_space c"
  shows "collapse_ws (trimEnd (c # cs)) =
     (if \<forall>x\<in>set (dropWhile (\<lambda>x. \<not> white_space x) cs). white_space x
      then c # takeWhile (\<lambda>x. \<not> white_space x) cs
      else (c # takeWhile (\<lambda>x. \<not> white_space x) cs)
             @ collapse_ws (trimEnd (dropWhile (\<lambda>x. \<not> white_space x) cs)))"
proof -
  let ?w = "c # takeWhile (\<lambda>x. \<not> white_space x) cs"
  let ?r = "dropWhile (\<lambda>x. \<not> white_space x) cs"
  have word: "\<forall>x\<in>set ?w. \<not> white_space x" using assms by (auto dest: set_takeWhileD)
  have "trimEnd (?w @ ?r) = (if \<forall>x\<in>set ?r. white_space x then ?w else ?w @ trimEnd ?r)"
    by (simp only: trimEnd_append trimEnd_word [OF word])
  moreover have "?w @ ?r = c # cs" by simp
  ultimately have t: "trimEnd (c # cs) = (if \<forall>x\<in>set ?r. white_space x then ?w else ?w @ trimEnd ?r)"
    by (simp only:)
  have w1: "collapse_ws ?w = ?w" using collapse_ws_word [OF word, of "[]"] by simp
  have w2: "collapse_ws (?w @ trimEnd ?r) = ?w @ collapse_ws (trimEnd ?r)"
    by (rule collapse_ws_word [OF word])
  show ?thesis
  proof (cases "\<forall>x\<in>set ?r. white_space x")
    case True
    show ?thesis by (simp only: t w1 if_P [OF True])
  next
    case False
    show ?thesis by (simp only: t w2 if_not_P [OF False])
  qed
qed

lemma collapse_trimEnd:
  "collapse_ws (trimEnd t) =
     (if t \<noteq> [] \<and> white_space (hd t) \<and> \<not> (\<forall>x\<in>set t. white_space x)
      then 0x20 # join_words (words_of t) else join_words (words_of t))"
proof (induction t rule: words_of.induct)
  case 1
  show ?case by (simp add: trimEnd_Nil)
next
  case (2 c cs)
  show ?case
  proof (cases "white_space c")
    case True
    note ws = this
    have wo: "words_of (c # cs) = words_of cs" using ws by simp
    show ?thesis
    proof (cases "\<forall>x\<in>set cs. white_space x")
      case True
      have "collapse_ws (trimEnd (c # cs)) = []"
        by (simp only: collapse_trimEnd_ws [OF ws] if_P [OF True])
      moreover have "words_of cs = []" using True by (rule words_of_blank)
      moreover have "\<forall>x\<in>set (c # cs). white_space x" using ws True by simp
      ultimately show ?thesis by (simp add: wo)
    next
      case False
      have ih: "collapse_ws (trimEnd cs) =
          (if cs \<noteq> [] \<and> white_space (hd cs) \<and> \<not> (\<forall>x\<in>set cs. white_space x)
           then 0x20 # join_words (words_of cs) else join_words (words_of cs))"
        using ws by (rule "2.IH"(1))
      have hd: "trimEnd cs \<noteq> [] \<and> hd (trimEnd cs) = hd cs" using False by (rule trimEnd_hd)
      have ne: "cs \<noteq> []" using False by auto
      have d: "collapse_ws (dropWhile white_space (trimEnd cs)) = join_words (words_of cs)"
      proof (cases "white_space (hd cs)")
        case True
        then have "collapse_ws (trimEnd cs) = 0x20 # join_words (words_of cs)"
          using ih ne False by simp
        then show ?thesis using hd True by (simp add: collapse_ws_dropWhile)
      next
        case False
        then have "collapse_ws (trimEnd cs) = join_words (words_of cs)"
          using ih by simp
        then show ?thesis using hd False by (simp add: collapse_ws_dropWhile)
      qed
      have "collapse_ws (trimEnd (c # cs)) = 0x20 # join_words (words_of cs)"
        by (simp only: collapse_trimEnd_ws [OF ws] if_not_P [OF False] d)
      moreover have "\<not> (\<forall>x\<in>set (c # cs). white_space x)" using False by simp
      ultimately show ?thesis using ws by (simp add: wo)
    qed
  next
    case False
    note nws = this
    let ?w = "c # takeWhile (\<lambda>x. \<not> white_space x) cs"
    let ?r = "dropWhile (\<lambda>x. \<not> white_space x) cs"
    have wo: "words_of (c # cs) = ?w # words_of ?r" using nws by simp
    have cond: "\<not> (c # cs \<noteq> [] \<and> white_space (hd (c # cs)) \<and> \<not> (\<forall>x\<in>set (c # cs). white_space x))"
      using nws by simp
    show ?thesis
    proof (cases "\<forall>x\<in>set ?r. white_space x")
      case True
      have "collapse_ws (trimEnd (c # cs)) = ?w"
        by (simp only: collapse_trimEnd_word [OF nws] if_P [OF True])
      moreover have "words_of ?r = []" using True by (rule words_of_blank)
      ultimately show ?thesis by (simp only: wo if_not_P [OF cond] join_words.simps)
    next
      case False
      have rne: "?r \<noteq> []"
      proof
        assume e: "?r = []"
        show False using False unfolding e by simp
      qed
      have hdr: "white_space (hd ?r)" using rne by (rule hd_dropWhile_not)
      have ih: "collapse_ws (trimEnd ?r) =
          (if ?r \<noteq> [] \<and> white_space (hd ?r) \<and> \<not> (\<forall>x\<in>set ?r. white_space x)
           then 0x20 # join_words (words_of ?r) else join_words (words_of ?r))"
        using nws by (rule "2.IH"(2))
      have c2: "?r \<noteq> [] \<and> white_space (hd ?r) \<and> \<not> (\<forall>x\<in>set ?r. white_space x)"
        using rne hdr False by blast
      have r: "collapse_ws (trimEnd ?r) = 0x20 # join_words (words_of ?r)"
        by (simp only: ih if_P [OF c2])
      have "collapse_ws (trimEnd (c # cs)) = ?w @ 0x20 # join_words (words_of ?r)"
        by (simp only: collapse_trimEnd_word [OF nws] if_not_P [OF False] r)
      moreover have "join_words (?w # words_of ?r) = ?w @ 0x20 # join_words (words_of ?r)"
        using words_of_not_blank [OF False] by (rule join_words_Cons)
      ultimately show ?thesis by (simp only: wo if_not_P [OF cond])
    qed
  qed
qed

lemma collapse_trim: "collapse_ws (trim s) = join_words (words_of s)"
proof -
  have "dropWhile white_space s = [] \<or> \<not> white_space (hd (dropWhile white_space s))"
    using hd_dropWhile [of white_space s] by blast
  then have "collapse_ws (trimEnd (dropWhile white_space s)) = join_words (words_of (dropWhile white_space s))"
    by (auto simp: collapse_trimEnd)
  then show ?thesis by (simp add: trim_def trimStart_ws words_of_dropWhile)
qed

lemma words_of_words:
  "w \<in> set (words_of s) \<Longrightarrow> w \<noteq> [] \<and> (\<forall>c\<in>set w. \<not> white_space c)"
proof (induction s rule: words_of.induct)
  case 1
  then show ?case by simp
next
  case (2 c cs)
  show ?case
  proof (cases "white_space c")
    case True
    then have "w \<in> set (words_of cs)" using "2.prems" by simp
    with True show ?thesis by (rule "2.IH"(1))
  next
    case False
    then have "w = c # takeWhile (\<lambda>x. \<not> white_space x) cs
               \<or> w \<in> set (words_of (dropWhile (\<lambda>x. \<not> white_space x) cs))"
      using "2.prems" by simp
    then show ?thesis
    proof
      assume e: "w = c # takeWhile (\<lambda>x. \<not> white_space x) cs"
      have "\<forall>x\<in>set (takeWhile (\<lambda>x. \<not> white_space x) cs). \<not> white_space x"
        by (blast dest: set_takeWhileD)
      then show ?thesis unfolding e using False by simp
    next
      assume "w \<in> set (words_of (dropWhile (\<lambda>x. \<not> white_space x) cs))"
      with False show ?thesis by (rule "2.IH"(2))
    qed
  qed
qed

lemma words_of_word_append:
  assumes "w \<noteq> []" "\<forall>c\<in>set w. \<not> white_space c" "r = [] \<or> white_space (hd r)"
  shows "words_of (w @ r) = w # words_of r"
proof -
  obtain c w' where w: "w = c # w'" using assms(1) by (cases w) auto
  have tk: "takeWhile (\<lambda>x. \<not> white_space x) r = []" using assms(3) by (cases r) auto
  have dr: "dropWhile (\<lambda>x. \<not> white_space x) r = r" using assms(3) by (cases r) auto
  have "takeWhile (\<lambda>x. \<not> white_space x) (w' @ r) = w'"
    using assms(2) w tk by (simp add: takeWhile_append2)
  moreover have "dropWhile (\<lambda>x. \<not> white_space x) (w' @ r) = r"
    using assms(2) w dr by (simp add: dropWhile_append2)
  ultimately show ?thesis using assms(2) w by simp
qed

lemma white_space_space: "white_space 0x20"
  by (simp add: white_space_def)

lemma words_of_join_words:
  "\<forall>w\<in>set ws. w \<noteq> [] \<and> (\<forall>c\<in>set w. \<not> white_space c) \<Longrightarrow> words_of (join_words ws) = ws"
proof (induction ws rule: join_words.induct)
  case 1
  show ?case by simp
next
  case (2 w)
  then show ?case using words_of_word_append [of w "[]"] by simp
next
  case (3 w v ws)
  have "words_of (w @ 0x20 # join_words (v # ws)) = w # words_of (0x20 # join_words (v # ws))"
    using 3(2) by (intro words_of_word_append) (simp_all add: white_space_space)
  then show ?case using 3 by (simp add: white_space_space)
qed

lemma map_eq_iff_list_all2:
  "(map f xs = map f ys) = list_all2 (\<lambda>x y. f x = f y) xs ys"
proof (induction xs arbitrary: ys)
  case Nil
  show ?case by simp
next
  case (Cons x xs)
  then show ?case by (cases ys) simp_all
qed

lemma toLowerCase_table: "list_all in_table s \<Longrightarrow> toLowerCase L s = map lower_unit s"
  by (simp add: toLowerCase_def)

lemma lower_join_words:
  "map lower_unit (join_words ws) = join_words (map (map lower_unit) ws)"
  by (induction ws rule: join_words.induct) (simp_all add: lower_unit_space)

lemma words_of_units: "w \<in> set (words_of s) \<Longrightarrow> c \<in> set w \<Longrightarrow> c \<in> set s"
proof (induction s rule: words_of.induct)
  case 1
  then show ?case by simp
next
  case (2 x xs)
  show ?case
  proof (cases "white_space x")
    case True
    then have "w \<in> set (words_of xs)" using "2.prems"(1) by simp
    with True have "c \<in> set xs" using "2.prems"(2) by (rule "2.IH"(1))
    then show ?thesis by simp
  next
    case False
    then have "w = x # takeWhile (\<lambda>y. \<not> white_space y) xs
               \<or> w \<in> set (words_of (dropWhile (\<lambda>y. \<not> white_space y) xs))"
      using "2.prems"(1) by simp
    then show ?thesis
    proof
      assume e: "w = x # takeWhile (\<lambda>y. \<not> white_space y) xs"
      then have "c = x \<or> c \<in> set (takeWhile (\<lambda>y. \<not> white_space y) xs)"
        using "2.prems"(2) by simp
      then show ?thesis by (auto dest: set_takeWhileD)
    next
      assume "w \<in> set (words_of (dropWhile (\<lambda>y. \<not> white_space y) xs))"
      with False have "c \<in> set (dropWhile (\<lambda>y. \<not> white_space y) xs)"
        using "2.prems"(2) by (rule "2.IH"(2))
      then have "c \<in> set xs" by (rule set_dropWhileD)
      then show ?thesis by simp
    qed
  qed
qed

lemma latin1_words:
  assumes "latin1_label a" "w \<in> set (words_of a)" "c \<in> set w"
  shows "c < 256"
proof -
  have "c \<in> set a" using assms(2,3) by (rule words_of_units)
  then have "c < 256 \<or> white_space c" using assms(1) by (simp add: latin1_label_def list_all_iff)
  moreover have "\<not> white_space c" using words_of_words [OF assms(2)] assms(3) by blast
  ultimately show ?thesis by blast
qed

lemma join_words_units:
  "P 0x20 \<Longrightarrow> \<forall>w\<in>set ws. \<forall>c\<in>set w. P c \<Longrightarrow> \<forall>c\<in>set (join_words ws). P c"
  by (induction ws rule: join_words.induct) auto

lemma normalizeDesignation_latin1:
  assumes "latin1_label a"
  shows "normalizeDesignation L a = join_words (map (map lower_unit) (words_of a))"
proof -
  have "\<forall>w\<in>set (words_of a). \<forall>c\<in>set w. in_table c"
    using latin1_words [OF assms] by (auto simp: in_table_def)
  then have "\<forall>c\<in>set (join_words (words_of a)). in_table c"
    by (intro join_words_units) (simp_all add: in_table_def)
  then have "list_all in_table (join_words (words_of a))" by (simp add: list_all_iff)
  then show ?thesis
    by (simp add: normalizeDesignation_def collapse_trim toLowerCase_table lower_join_words)
qed

lemma lowered_words:
  "\<forall>w\<in>set (map (map lower_unit) (words_of s)). w \<noteq> [] \<and> (\<forall>c\<in>set w. \<not> white_space c)"
  using words_of_words [of _ s] by (auto simp: white_space_lower)

lemma lower_words_eq_iff:
  assumes "\<forall>c\<in>set v. c < 256" "\<forall>c\<in>set w. c < 256"
  shows "(map lower_unit v = map lower_unit w) = list_all2 same_letter v w"
proof -
  have "list_all2 (\<lambda>x y. lower_unit x = lower_unit y) v w = list_all2 same_letter v w"
    using assms by (intro list.rel_cong) (auto simp: lower_unit_eq_iff)
  then show ?thesis by (simp add: map_eq_iff_list_all2)
qed

lemma lower_labels_eq_iff:
  assumes "\<forall>v\<in>set vs. \<forall>c\<in>set v. c < 256" "\<forall>w\<in>set ws. \<forall>c\<in>set w. c < 256"
  shows "(map (map lower_unit) vs = map (map lower_unit) ws)
           = list_all2 (list_all2 same_letter) vs ws"
proof -
  have "list_all2 (\<lambda>x y. map lower_unit x = map lower_unit y) vs ws
          = list_all2 (list_all2 same_letter) vs ws"
    using assms by (intro list.rel_cong) (auto simp: lower_words_eq_iff)
  then show ?thesis by (simp add: map_eq_iff_list_all2)
qed

lemmas normalize_defs =
  normalizeDesignation_def toLowerCase_def in_table_def lower_unit_def trim_def trimStart_ws
  trimEnd_ws white_space_def u16_def id_conversion_def

lemma normalize_examples:
  "normalizeDesignation L (u16 ''Spool  Yard'') = u16 ''spool yard''"
  "normalizeDesignation L (u16 ''spool yard'') = u16 ''spool yard''"
  "normalizeDesignation L
     ([0x3000] @ u16 ''Spool'' @ [0xFEFF, 0x09] @ u16 ''YARD'' @ [0xA0, 0x2028])
     = u16 ''spool yard''"
  "normalizeDesignation L [0xC9, 0xD7, 0xDF] = [0xE9, 0xD7, 0xDF]"
  "normalizeDesignation L [0x41, 0x85, 0x42] = [0x61, 0x85, 0x62]"
  "normalizeDesignation L [0x212A] = [0x6B]"
  "normalizeDesignation L [0x4B] = [0x6B]"
  by (simp_all add: normalize_defs)

text \<open>
  Claim C5 as stated, for all labels, fails outside Latin-1: \<^verbatim>\<open>toLowerCase\<close> maps the
  Kelvin sign U+212A to the letter k, as it maps the capital K. The label that is the
  Kelvin sign and the label that is the capital K have the same key, yet they differ in
  a character and not only in letter case or white space.
\<close>

theorem C5_kelvin_counterexample:
  "normalizeDesignation id_conversion [0x212A] = normalizeDesignation id_conversion [0x4B]
   \<and> \<not> same_up_to_case_and_spacing [0x212A] [0x4B]"
  by (simp add: normalize_examples same_up_to_case_and_spacing_def white_space_def
        same_letter_def case_pair_def)

text \<open>
  Claim C5, amended. For all labels whose code units other than white space are Latin-1
  (below 256), two labels have the same normalization exactly when they are the same up
  to case and spacing: the same words, letter by letter up to case, whatever white space
  stands between and around them. This holds whatever the runtime's conversion \<open>L\<close> of
  other text is. In particular \<^verbatim>\<open>"Spool  Yard"\<close> and \<^verbatim>\<open>"spool yard"\<close> have the same key; an
  ideographic space, a byte order mark, a tab, a no-break space and a line separator
  are white space; the accented capital U+00C9 is lowered while the multiplication sign
  and the sharp s stay; and the control U+0085 is not white space.
\<close>

theorem C5_normalize_iff:
  assumes "latin1_label a" "latin1_label b"
  shows "(normalizeDesignation L a = normalizeDesignation L b) = same_up_to_case_and_spacing a b
   \<and> normalizeDesignation L (u16 ''Spool  Yard'') = normalizeDesignation L (u16 ''spool yard'')
   \<and> normalizeDesignation L
        ([0x3000] @ u16 ''Spool'' @ [0xFEFF, 0x09] @ u16 ''YARD'' @ [0xA0, 0x2028])
       = u16 ''spool yard''
   \<and> normalizeDesignation L [0xC9, 0xD7, 0xDF] = [0xE9, 0xD7, 0xDF]
   \<and> normalizeDesignation L [0x41, 0x85, 0x42] = [0x61, 0x85, 0x62]"
proof -
  have "(normalizeDesignation L a = normalizeDesignation L b)
          = (map (map lower_unit) (words_of a) = map (map lower_unit) (words_of b))"
  proof
    assume "normalizeDesignation L a = normalizeDesignation L b"
    then have "words_of (join_words (map (map lower_unit) (words_of a)))
                 = words_of (join_words (map (map lower_unit) (words_of b)))"
      by (simp add: normalizeDesignation_latin1 assms)
    then show "map (map lower_unit) (words_of a) = map (map lower_unit) (words_of b)"
      by (simp only: words_of_join_words [OF lowered_words])
  next
    assume "map (map lower_unit) (words_of a) = map (map lower_unit) (words_of b)"
    then show "normalizeDesignation L a = normalizeDesignation L b"
      by (simp add: normalizeDesignation_latin1 assms)
  qed
  also have "\<dots> = list_all2 (list_all2 same_letter) (words_of a) (words_of b)"
    using latin1_words [OF assms(1)] latin1_words [OF assms(2)]
    by (intro lower_labels_eq_iff) blast+
  finally have iff: "(normalizeDesignation L a = normalizeDesignation L b)
                       = same_up_to_case_and_spacing a b"
    by (simp add: same_up_to_case_and_spacing_def)
  have e: "normalizeDesignation L (u16 ''Spool  Yard'') = normalizeDesignation L (u16 ''spool yard'')"
    by (simp only: normalize_examples)
  show ?thesis using iff e normalize_examples(3,4,5) by blast
qed

theorem C5_normalize_iff_witness:
  "latin1_label (u16 ''Spool  Yard'')
   \<and> latin1_label ([0x3000] @ u16 ''sPOOL'' @ [0xFEFF] @ u16 ''yard'')
   \<and> same_up_to_case_and_spacing (u16 ''Spool  Yard'')
        ([0x3000] @ u16 ''sPOOL'' @ [0xFEFF] @ u16 ''yard'')
   \<and> normalizeDesignation id_conversion (u16 ''Spool  Yard'')
       = normalizeDesignation id_conversion ([0x3000] @ u16 ''sPOOL'' @ [0xFEFF] @ u16 ''yard'')"
proof -
  have a: "latin1_label (u16 ''Spool  Yard'')"
    by (simp add: latin1_label_def u16_def)
  have b: "latin1_label ([0x3000] @ u16 ''sPOOL'' @ [0xFEFF] @ u16 ''yard'')"
    by (simp add: latin1_label_def u16_def white_space_def)
  have s: "same_up_to_case_and_spacing (u16 ''Spool  Yard'')
        ([0x3000] @ u16 ''sPOOL'' @ [0xFEFF] @ u16 ''yard'')"
    by (simp add: same_up_to_case_and_spacing_def u16_def white_space_def same_letter_def
          case_pair_def)
  show ?thesis
    using a b s C5_normalize_iff [OF a b, of id_conversion, THEN conjunct1] by blast
qed

section \<open>The attendance ledger\<close>

subsection \<open>Lookups of plain keys\<close>








subsection \<open>Totals\<close>




subsection \<open>Reading\<close>

lemma getAreaData_frame: "snd (getAreaData s d a) = s"
  by (simp add: getAreaData_def split: property.splits)

lemma getRow_frame: "snd (getRow s d a k) = s"
  using getAreaData_frame [of s d a]
  by (cases "getAreaData s d a") (simp add: getRow_def split: sum.splits property.splits)

lemma getAreaTotals_frame: "snd (getAreaTotals s d a) = s"
  using getAreaData_frame [of s d a]
  by (cases "getAreaData s d a") (simp add: getAreaTotals_def split: sum.splits property.splits)

lemma grand_total_from_frame: "snd (grand_total_from acc s d as) = s"
proof (induction as arbitrary: acc)
  case Nil
  show ?case by simp
next
  case (Cons a as)
  obtain r s1 where g: "getAreaTotals s d a = (r, s1)" by (cases "getAreaTotals s d a")
  then have "s1 = s" using getAreaTotals_frame [of s d a] by simp
  then show ?case using g Cons.IH by (cases r) simp_all
qed

lemma getEntries_frame: "snd (getEntries s d) = s"
  by (simp add: getEntries_def split: property.splits)

text \<open>
  Claim C10. The read operations \<^verbatim>\<open>getRow\<close>, \<^verbatim>\<open>getAreaData\<close>, \<^verbatim>\<open>getAreaTotals\<close>,
  \<^verbatim>\<open>getGrandTotal\<close> and \<^verbatim>\<open>Audit.getEntries\<close> leave every persisted document as it was, for
  every store, whether they return or throw; this includes a date that has no stored
  document, whose lazily created empty document is not written back.
\<close>

theorem C10_reads_do_not_write:
  "snd (getRow s d a k) = s
   \<and> snd (getAreaData s d a) = s
   \<and> snd (getAreaTotals s d a) = s
   \<and> snd (getGrandTotal s d as) = s
   \<and> snd (getEntries s d) = s"
  by (simp add: getRow_frame getAreaData_frame getAreaTotals_frame getGrandTotal_def
        grand_total_from_frame getEntries_frame)

subsection \<open>Frames of the session check and of the history\<close>

lemma findIndex_Some:
  "findIndex P xs = Some i \<Longrightarrow> i < length xs \<and> P (xs ! i)"
  by (induction xs arbitrary: i) (auto split: if_splits option.splits)

lemma getCurrentUser_attendance:
  "hc_attendance (snd (getCurrentUser s now)) = hc_attendance s"
  by (simp add: getCurrentUser_def Let_def logout_def saveSession_def split: option.splits)


lemma addToHistory_attendance: "hc_attendance (snd (addToHistory L s l a)) = hc_attendance s"
  by (simp add: addToHistory_def saveDesignationHistory_def Let_def split: property.splits)

subsection \<open>The audit trail under updateRow\<close>

lemmas ledger_defs =
  updateRow_def addEntry_def getCurrentUser_def getEntries_def getRow_def getAreaData_def
  getAttendanceForDate_def saveAttendanceForDate_def getAttendance_def saveAttendance_def
  getSession_def getUsers_def truthy_str_def truthy_num_def logout_def saveSession_def
  js_get_def js_set_def proto_names_def MAX_AUDIT_ENTRIES_def Let_def

lemmas example_defs =
  audit_store_def totals_store_def empty_store_def empty_date_def default_session_def
  mk_row_def bob_def set_present_def u16_def

lemma audit_store_addEntry:
  "fst (getEntries (snd (addEntry audit_store 1001 ''2024-01-01'' ''PWHT'' (u16 ''fitter'')
                           ''present'' JNull (JNum 1))) ''2024-01-01'')
     = [\<lparr>e_ts = 1001, e_user = ''bob'', e_area = ''PWHT'', e_designationKey = u16 ''fitter'',
         e_field = ''present'', e_from = JNull, e_to = JNum 1\<rparr>]"
  by (simp add: ledger_defs example_defs)

lemma audit_store_first_change:
  "updateRow audit_store 1001 ''2024-01-01'' ''PWHT'' (u16 ''fitter'') (set_present 1)
     = (Inr (), audit_store\<lparr>hc_attendance :=
          [''2024-01-01'' \<mapsto>
             \<lparr>areas = [''PWHT'' \<mapsto> \<lparr>rows =
                  [mk_row ''welder'' (JNum 3) True,
                   \<lparr>designationKey = u16 ''fitter'', designationLabel = u16 ''fitter'',
                    present = JNum 1, confirmed = False, updatedAt = Some 1001,
                    updatedBy = Some ''bob''\<rparr>,
                   mk_row ''rigger'' (JNum 5) True]\<rparr>],
              audit = [], d_updatedAt = Some 1001, d_updatedBy = Some ''bob''\<rparr>]\<rparr>)"
  by (simp add: ledger_defs example_defs)

lemma eleven_changes_store:
  "eleven_changes audit_store
     = audit_store\<lparr>hc_attendance :=
          [''2024-01-01'' \<mapsto>
             \<lparr>areas = [''PWHT'' \<mapsto> \<lparr>rows =
                  [mk_row ''welder'' (JNum 3) True,
                   \<lparr>designationKey = u16 ''fitter'', designationLabel = u16 ''fitter'',
                    present = JNum 11, confirmed = False, updatedAt = Some 1011,
                    updatedBy = Some ''bob''\<rparr>,
                   mk_row ''rigger'' (JNum 5) True]\<rparr>],
              audit = [], d_updatedAt = Some 1011, d_updatedBy = Some ''bob''\<rparr>]\<rparr>"
  by (simp add: eleven_changes_def ledger_defs example_defs)

text \<open>
  Claim C1 says that \<^verbatim>\<open>updateRow\<close> emits one audit entry for each changed field and that
  after eleven audited changes on one date \<^verbatim>\<open>getEntries\<close> returns the ten most recent
  ones. The code does not keep them. \<^verbatim>\<open>updateRow\<close> reads the date document, lets
  \<^verbatim>\<open>Audit.addEntry\<close> read the document again, put the entry in front and save it, and then
  saves its own earlier copy, whose audit list is the old one. On a store with a live
  session and a row whose \<^verbatim>\<open>present\<close> is \<^verbatim>\<open>null\<close>: \<^verbatim>\<open>addEntry\<close> alone records the entry; one
  \<^verbatim>\<open>updateRow\<close> returns normally, changes the row and leaves the audit list empty; eleven
  changes in a row, each to a new value, leave the row at the last value and the audit
  list still empty.
\<close>

theorem C1_audit_entries_lost:
  "fst (getEntries (snd (addEntry audit_store 1001 ''2024-01-01'' ''PWHT'' (u16 ''fitter'')
                           ''present'' JNull (JNum 1))) ''2024-01-01'')
     = [\<lparr>e_ts = 1001, e_user = ''bob'', e_area = ''PWHT'', e_designationKey = u16 ''fitter'',
         e_field = ''present'', e_from = JNull, e_to = JNum 1\<rparr>]
   \<and> fst (updateRow audit_store 1001 ''2024-01-01'' ''PWHT'' (u16 ''fitter'') (set_present 1))
       = Inr ()
   \<and> fst (getRow (snd (updateRow audit_store 1001 ''2024-01-01'' ''PWHT'' (u16 ''fitter'')
                          (set_present 1)))
          ''2024-01-01'' ''PWHT'' (u16 ''fitter''))
     = Inr (Some \<lparr>designationKey = u16 ''fitter'', designationLabel = u16 ''fitter'',
                  present = JNum 1, confirmed = False, updatedAt = Some 1001,
                  updatedBy = Some ''bob''\<rparr>)
   \<and> fst (getEntries (snd (updateRow audit_store 1001 ''2024-01-01'' ''PWHT'' (u16 ''fitter'')
                              (set_present 1)))
          ''2024-01-01'') = []
   \<and> fst (getRow (eleven_changes audit_store) ''2024-01-01'' ''PWHT'' (u16 ''fitter''))
     = Inr (Some \<lparr>designationKey = u16 ''fitter'', designationLabel = u16 ''fitter'',
                  present = JNum 11, confirmed = False, updatedAt = Some 1011,
                  updatedBy = Some ''bob''\<rparr>)
   \<and> fst (getEntries (eleven_changes audit_store) ''2024-01-01'') = []"
proof -
  have r1: "fst (getRow (snd (updateRow audit_store 1001 ''2024-01-01'' ''PWHT'' (u16 ''fitter'')
                          (set_present 1)))
          ''2024-01-01'' ''PWHT'' (u16 ''fitter''))
     = Inr (Some \<lparr>designationKey = u16 ''fitter'', designationLabel = u16 ''fitter'',
                  present = JNum 1, confirmed = False, updatedAt = Some 1001,
                  updatedBy = Some ''bob''\<rparr>)"
    unfolding audit_store_first_change
    by (simp add: getRow_def getAreaData_def getAttendanceForDate_def getAttendance_def
          js_get_def mk_row_def u16_def)
  have e1: "fst (getEntries (snd (updateRow audit_store 1001 ''2024-01-01'' ''PWHT''
                        (u16 ''fitter'') (set_present 1))) ''2024-01-01'') = []"
    unfolding audit_store_first_change
    by (simp add: getEntries_def getAttendanceForDate_def getAttendance_def js_get_def)
  have r11: "fst (getRow (eleven_changes audit_store) ''2024-01-01'' ''PWHT'' (u16 ''fitter''))
     = Inr (Some \<lparr>designationKey = u16 ''fitter'', designationLabel = u16 ''fitter'',
                  present = JNum 11, confirmed = False, updatedAt = Some 1011,
                  updatedBy = Some ''bob''\<rparr>)"
    unfolding eleven_changes_store
    by (simp add: getRow_def getAreaData_def getAttendanceForDate_def getAttendance_def
          js_get_def mk_row_def u16_def)
  have e11: "fst (getEntries (eleven_changes audit_store) ''2024-01-01'') = []"
    unfolding eleven_changes_store
    by (simp add: getEntries_def getAttendanceForDate_def getAttendance_def js_get_def)
  have ok: "fst (updateRow audit_store 1001 ''2024-01-01'' ''PWHT'' (u16 ''fitter'')
                  (set_present 1)) = Inr ()"
    unfolding audit_store_first_change by simp
  show ?thesis using audit_store_addEntry ok r1 e1 r11 e11 by blast
qed

subsection \<open>deleteRow\<close>

lemma length_splice1: "i < length xs \<Longrightarrow> length (splice1 i xs) = length xs - 1"
  by (simp add: splice1_def)

lemma addOrUpdateRow_no_user:
  assumes "fst (getCurrentUser s now) = None"
  shows "hc_attendance (snd (addOrUpdateRow L s now d a l)) = hc_attendance s"
  using assms getCurrentUser_attendance [of s now]
  by (cases "getCurrentUser s now") (simp add: addOrUpdateRow_def)

lemma updateRow_no_user:
  assumes "fst (getCurrentUser s now) = None"
  shows "hc_attendance (snd (updateRow s now d a k upd)) = hc_attendance s"
  using assms getCurrentUser_attendance [of s now]
  by (cases "getCurrentUser s now") (simp add: updateRow_def)

text \<open>
  Claim C8. \<^verbatim>\<open>deleteRow\<close> does not ask for a session: whatever the session document
  holds, when the date document has the area and the area has a row with the key,
  \<^verbatim>\<open>deleteRow\<close> returns normally, stores the date document with the first such row cut
  out and changes nothing else. In contrast, under a session check that finds no user
  \<^verbatim>\<open>addOrUpdateRow\<close> and \<^verbatim>\<open>updateRow\<close> leave the attendance document as it is.
\<close>

theorem C8_deleteRow_needs_no_session:
  assumes doc: "hc_attendance s d = Some doc"
    and ar: "areas doc a = Some ar"
    and idx: "findIndex (\<lambda>r. designationKey r = k) (rows ar) = Some i"
  shows "deleteRow s d a k =
           (Inr (), s\<lparr>hc_attendance := (hc_attendance s)
               (d \<mapsto> doc\<lparr>areas := (areas doc)(a \<mapsto> ar\<lparr>rows := splice1 i (rows ar)\<rparr>)\<rparr>)\<rparr>)
       \<and> i < length (rows ar) \<and> designationKey (rows ar ! i) = k
       \<and> length (splice1 i (rows ar)) = length (rows ar) - 1
       \<and> (\<forall>L now l upd. fst (getCurrentUser s now) = None \<longrightarrow>
            hc_attendance (snd (addOrUpdateRow L s now d a l)) = hc_attendance s
            \<and> hc_attendance (snd (updateRow s now d a k upd)) = hc_attendance s)"
proof -
  have del: "deleteRow s d a k =
           (Inr (), s\<lparr>hc_attendance := (hc_attendance s)
               (d \<mapsto> doc\<lparr>areas := (areas doc)(a \<mapsto> ar\<lparr>rows := splice1 i (rows ar)\<rparr>)\<rparr>)\<rparr>)"
    using doc ar idx
    by (simp add: deleteRow_def getAttendanceForDate_def getAttendance_def js_get_def js_set_def
          saveAttendanceForDate_def saveAttendance_def)
  show ?thesis
    using del findIndex_Some [OF idx] length_splice1 [of i "rows ar"]
      addOrUpdateRow_no_user [of s] updateRow_no_user [of s]
    by simp
qed

theorem C8_deleteRow_needs_no_session_witness:
  "fst (getCurrentUser totals_store 1000) = None
   \<and> fst (deleteRow totals_store ''2024-01-01'' ''PWHT'' (u16 ''fitter'')) = Inr ()
   \<and> fst (getRow (snd (deleteRow totals_store ''2024-01-01'' ''PWHT'' (u16 ''fitter'')))
            ''2024-01-01'' ''PWHT'' (u16 ''fitter'')) = Inr None
   \<and> stored_rows (snd (deleteRow totals_store ''2024-01-01'' ''PWHT'' (u16 ''fitter'')))
            ''2024-01-01'' ''PWHT''
       = [mk_row ''welder'' (JNum 3) True, mk_row ''rigger'' (JNum 5) True]
   \<and> hc_attendance (snd (addOrUpdateRow id_conversion totals_store 1000 ''2024-01-01'' ''PWHT''
                            (u16 ''Fitter'')))
       = hc_attendance totals_store
   \<and> hc_attendance (snd (updateRow totals_store 1000 ''2024-01-01'' ''PWHT'' (u16 ''fitter'')
                            (set_present 4)))
       = hc_attendance totals_store"
proof -
  let ?ar = "\<lparr>rows = [mk_row ''welder'' (JNum 3) True, mk_row ''fitter'' JNull False,
                      mk_row ''rigger'' (JNum 5) True]\<rparr>"
  let ?doc = "empty_date\<lparr>areas := [''PWHT'' \<mapsto> ?ar]\<rparr>"
  have doc: "hc_attendance totals_store ''2024-01-01'' = Some ?doc"
    by (simp add: totals_store_def)
  have ar: "areas ?doc ''PWHT'' = Some ?ar" by simp
  have idx: "findIndex (\<lambda>r. designationKey r = u16 ''fitter'') (rows ?ar) = Some 1"
    by (simp add: mk_row_def u16_def)
  have nouser: "fst (getCurrentUser totals_store 1000) = None"
    by (simp add: getCurrentUser_def getSession_def truthy_str_def totals_store_def
          empty_store_def default_session_def)
  note th = C8_deleteRow_needs_no_session [OF doc ar idx]
  have del: "deleteRow totals_store ''2024-01-01'' ''PWHT'' (u16 ''fitter'') =
      (Inr (), totals_store\<lparr>hc_attendance := (hc_attendance totals_store)
         (''2024-01-01'' \<mapsto> ?doc\<lparr>areas := (areas ?doc)
            (''PWHT'' \<mapsto> ?ar\<lparr>rows := splice1 1 (rows ?ar)\<rparr>)\<rparr>)\<rparr>)"
    using th by blast
  have ok: "fst (deleteRow totals_store ''2024-01-01'' ''PWHT'' (u16 ''fitter'')) = Inr ()"
    unfolding del by simp
  have gone: "fst (getRow (snd (deleteRow totals_store ''2024-01-01'' ''PWHT'' (u16 ''fitter'')))
            ''2024-01-01'' ''PWHT'' (u16 ''fitter'')) = Inr None"
    unfolding del
    by (simp add: getRow_def getAreaData_def getAttendanceForDate_def getAttendance_def
          js_get_def splice1_def mk_row_def u16_def)
  have left: "stored_rows (snd (deleteRow totals_store ''2024-01-01'' ''PWHT'' (u16 ''fitter'')))
            ''2024-01-01'' ''PWHT''
       = [mk_row ''welder'' (JNum 3) True, mk_row ''rigger'' (JNum 5) True]"
    unfolding del by (simp add: stored_rows_def date_doc_def splice1_def)
  have contrast: "hc_attendance (snd (addOrUpdateRow id_conversion totals_store 1000 ''2024-01-01''
                            ''PWHT'' (u16 ''Fitter'')))
       = hc_attendance totals_store
   \<and> hc_attendance (snd (updateRow totals_store 1000 ''2024-01-01'' ''PWHT'' (u16 ''fitter'')
                            (set_present 4)))
       = hc_attendance totals_store"
    using th nouser by blast
  show ?thesis using nouser ok gone left contrast by blast
qed

subsection \<open>addOrUpdateRow\<close>
























section \<open>The designation index\<close>

subsection \<open>Suggestions\<close>

lemma u16_eq_iff: "(u16 a = u16 b) = (a = b)"
  unfolding u16_def by (rule inj_map_eq_map) (rule injI, simp)

lemma welder_keys:
  "normalizeDesignation L (u16 ''Welder 1'') = u16 ''welder 1''"
  "normalizeDesignation L (u16 ''Welder 2'') = u16 ''welder 2''"
  "normalizeDesignation L (u16 ''Welder 3'') = u16 ''welder 3''"
  "normalizeDesignation L (u16 ''Welder 4'') = u16 ''welder 4''"
  "normalizeDesignation L (u16 ''Welder 5'') = u16 ''welder 5''"
  "normalizeDesignation L (u16 ''Welder 6'') = u16 ''welder 6''"
  "normalizeDesignation L (u16 ''weld'') = u16 ''weld''"
  by (simp_all add: normalize_defs)

lemma six_welders_history:
  "hc_designation_history six_welders =
     \<lparr>h_global = map u16 [''Welder 6'', ''Welder 5'', ''Welder 4'', ''Welder 3'', ''Welder 2'',
                           ''Welder 1''],
      h_byArea = [''PWHT'' \<mapsto>
        map u16 [''Welder 6'', ''Welder 5'', ''Welder 4'', ''Welder 3'', ''Welder 2'',
                 ''Welder 1'']]\<rparr>"
  by (simp add: six_welders_def addToHistory_def getDesignationHistory_def
        saveDesignationHistory_def empty_store_def welder_keys u16_eq_iff js_get_def js_set_def
        proto_names_def
        MAX_GLOBAL_DESIGNATION_HISTORY_def MAX_AREA_DESIGNATION_HISTORY_def)

lemma getSuggestions_cap_or_area:
  "(\<exists>xs. getSuggestions L s p a = Inr xs \<and> length xs \<le> 5)
   \<or> getSuggestions L s p a = Inl TypeError
   \<or> (\<exists>l. h_byArea (hc_designation_history s) a = Some l
          \<and> getSuggestions L s p a
              = Inr (filter (\<lambda>d. str_includes (normalizeDesignation L d)
                                    (normalizeDesignation L p)) l))"
proof -
  let ?m = "\<lambda>d. str_includes (normalizeDesignation L d) (normalizeDesignation L p)"
  let ?found = "if a \<noteq> [] then js_get (h_byArea (hc_designation_history s)) a else Absent"
  let ?sug = "case ?found of Own l \<Rightarrow> filter ?m l | _ \<Rightarrow> []"
  show ?thesis
  proof (cases "?found = Inherited")
    case True
    then have "getSuggestions L s p a = Inl TypeError"
      by (simp add: getSuggestions_def getDesignationHistory_def Let_def)
    then show ?thesis by blast
  next
    case ni: False
    have g: "getSuggestions L s p a
        = (if length ?sug < 5
           then Inr (take 5 (?sug @ filter (\<lambda>d. ?m d \<and> d \<notin> set ?sug)
                                      (h_global (hc_designation_history s))))
           else Inr ?sug)"
      using ni by (cases ?found) (simp_all add: getSuggestions_def getDesignationHistory_def Let_def)
    show ?thesis
    proof (cases "length ?sug < 5")
      case True
      have "getSuggestions L s p a
          = Inr (take 5 (?sug @ filter (\<lambda>d. ?m d \<and> d \<notin> set ?sug)
                                      (h_global (hc_designation_history s))))"
        by (simp only: g if_P [OF True])
      moreover have "length (take 5 (?sug @ filter (\<lambda>d. ?m d \<and> d \<notin> set ?sug)
                                      (h_global (hc_designation_history s)))) \<le> 5"
        by (simp only: length_take min.cobounded2)
      ultimately show ?thesis by blast
    next
      case False
      have g': "getSuggestions L s p a = Inr ?sug" by (simp only: g if_not_P [OF False])
      from False obtain l where l: "?found = Own l"
        by (cases ?found) simp_all
      then have "h_byArea (hc_designation_history s) a = Some l"
        by (auto simp add: js_get_def split: if_splits option.splits)
      moreover have "getSuggestions L s p a = Inr (filter ?m l)"
        using g' by (simp only: l property.case)
      ultimately show ?thesis by blast
    qed
  qed
qed

lemma welder_includes:
  "str_includes (u16 ''welder 1'') (u16 ''weld'')"
  "str_includes (u16 ''welder 2'') (u16 ''weld'')"
  "str_includes (u16 ''welder 3'') (u16 ''weld'')"
  "str_includes (u16 ''welder 4'') (u16 ''weld'')"
  "str_includes (u16 ''welder 5'') (u16 ''weld'')"
  "str_includes (u16 ''welder 6'') (u16 ''weld'')"
  by (simp_all add: u16_def)

lemma six_welders_suggestions:
  "getSuggestions id_conversion six_welders (u16 ''weld'') ''PWHT''
     = Inr (map u16 [''Welder 6'', ''Welder 5'', ''Welder 4'', ''Welder 3'', ''Welder 2'',
                     ''Welder 1''])"
  by (simp add: getSuggestions_def getDesignationHistory_def six_welders_history welder_keys
        welder_includes js_get_def)

text \<open>
  Claim C7 says that \<^verbatim>\<open>getSuggestions\<close> returns at most 5 labels. The code cuts the list
  to 5 only in the branch that appends the global matches; when the area's own history
  has 5 or more matches it returns all of them (\<open>getSuggestions_cap_or_area\<close>). After
  six designations were recorded for one area, the partial text ``weld'' gets six
  suggestions.
\<close>

theorem C7_six_suggestions:
  "getSuggestions id_conversion six_welders (u16 ''weld'') ''PWHT''
     = Inr (map u16 [''Welder 6'', ''Welder 5'', ''Welder 4'', ''Welder 3'', ''Welder 2'',
                     ''Welder 1''])
   \<and> map_sum id length (getSuggestions id_conversion six_welders (u16 ''weld'') ''PWHT'')
       = Inr 6"
  by (simp add: six_welders_suggestions)

end
